theory Spec2Isabelle
  imports Complex_Main "HOL-Library.Log_Nat"
begin

section \<open>JavaScript numbers\<close>

text \<open>
  The calculator computes with JavaScript numbers (IEEE 754 binary64). A number is a
  finite value, one of the two infinities, or NaN. Only finite values that binary64 can
  represent arise: every arithmetic result goes through \<open>rnd\<close>, which rounds an exact
  rational to the nearest representable value, ties to even, and overflows to an infinity.

  The two zeros are identified. The program cannot tell them apart: it never divides by a
  zero (\<open>div\<close> checks its denominator, \<open>root\<close> its degree, \<open>sqrt\<close> divides by 2), and the
  constructor of \<open>Complex\<close> replaces a zero of either sign by \<open>0\<close>.
\<close>

datatype jsnum = Fin rat | PInf | NInf | NaN

definition floor_log2 :: "rat \<Rightarrow> int" where
  \<comment> \<open>for \<open>0 < x\<close>: the exponent \<open>e\<close> with \<open>2^e \<le> x < 2^(e+1)\<close> (lemma \<open>floor_log2_bounds\<close>)\<close>
  "floor_log2 x = (if 1 \<le> x then bitlen \<lfloor>x\<rfloor> - 1 else - bitlen (\<lceil>1 / x\<rceil> - 1))"

definition round_half_even :: "rat \<Rightarrow> int" where
  "round_half_even x =
     (let f = \<lfloor>x\<rfloor>; d = x - of_int f
      in if d < 1 / 2 then f else if 1 / 2 < d then f + 1 else if even f then f else f + 1)"

definition rnd :: "rat \<Rightarrow> jsnum" where
  \<comment> \<open>binary64: 53 significant bits, least exponent \<open>-1022\<close> (subnormals below it share
      the spacing \<open>2^-1074\<close>), overflow from \<open>2^1024\<close>\<close>
  "rnd x =
     (if x = 0 then Fin 0
      else let e = max (floor_log2 \<bar>x\<bar>) (- 1022);
               ulp = 2 powi (e - 52);
               r = of_int (round_half_even (x / ulp)) * ulp
           in if 2 ^ 1024 \<le> r then PInf else if r \<le> - (2 ^ 1024) then NInf else Fin r)"

fun js_neg :: "jsnum \<Rightarrow> jsnum" where
  "js_neg (Fin x) = Fin (- x)"
| "js_neg PInf = NInf"
| "js_neg NInf = PInf"
| "js_neg NaN = NaN"

fun js_add :: "jsnum \<Rightarrow> jsnum \<Rightarrow> jsnum" where
  "js_add (Fin x) (Fin y) = rnd (x + y)"
| "js_add NaN b = NaN"
| "js_add a NaN = NaN"
| "js_add PInf NInf = NaN"
| "js_add NInf PInf = NaN"
| "js_add PInf b = PInf"
| "js_add a PInf = PInf"
| "js_add NInf b = NInf"
| "js_add a NInf = NInf"

definition js_sub :: "jsnum \<Rightarrow> jsnum \<Rightarrow> jsnum" where
  "js_sub a b = js_add a (js_neg b)"

fun js_negative :: "jsnum \<Rightarrow> bool" where
  "js_negative (Fin x) = (x < 0)"
| "js_negative NInf = True"
| "js_negative a = False"

fun js_mul :: "jsnum \<Rightarrow> jsnum \<Rightarrow> jsnum" where
  "js_mul (Fin x) (Fin y) = rnd (x * y)"
| "js_mul a b =
     (if a = NaN \<or> b = NaN \<or> a = Fin 0 \<or> b = Fin 0 then NaN
      else if js_negative a = js_negative b then PInf else NInf)"

fun js_div :: "jsnum \<Rightarrow> jsnum \<Rightarrow> jsnum" where
  "js_div (Fin x) (Fin y) =
     (if y \<noteq> 0 then rnd (x / y)
      else if x = 0 then NaN else if 0 < x then PInf else NInf)"
| "js_div NaN b = NaN"
| "js_div a NaN = NaN"
| "js_div (Fin x) b = Fin 0"
| "js_div a (Fin y) = (if js_negative a = (y < 0) then PInf else NInf)"
| "js_div a b = NaN"

fun js_lt :: "jsnum \<Rightarrow> jsnum \<Rightarrow> bool" where
  "js_lt (Fin x) (Fin y) = (x < y)"
| "js_lt NaN b = False"
| "js_lt a NaN = False"
| "js_lt a NInf = False"
| "js_lt PInf b = False"
| "js_lt a b = True"

definition js_eq :: "jsnum \<Rightarrow> jsnum \<Rightarrow> bool" where
  \<comment> \<open>\<open>===\<close> on numbers\<close>
  "js_eq a b = (a \<noteq> NaN \<and> a = b)"

definition js_le :: "jsnum \<Rightarrow> jsnum \<Rightarrow> bool" where
  "js_le a b = (js_lt a b \<or> js_eq a b)"

fun Math_abs :: "jsnum \<Rightarrow> jsnum" where
  "Math_abs (Fin x) = Fin \<bar>x\<bar>"
| "Math_abs NaN = NaN"
| "Math_abs a = PInf"

definition Math_max :: "jsnum \<Rightarrow> jsnum \<Rightarrow> jsnum" where
  "Math_max a b = (if a = NaN \<or> b = NaN then NaN else if js_lt a b then b else a)"

fun Math_round :: "jsnum \<Rightarrow> jsnum" where
  "Math_round (Fin x) = Fin (of_int \<lfloor>x + 1 / 2\<rfloor>)"
| "Math_round a = a"

fun Number_isInteger :: "jsnum \<Rightarrow> bool" where
  "Number_isInteger (Fin x) = (x = of_int \<lfloor>x\<rfloor>)"
| "Number_isInteger a = False"

fun Number_isNaN :: "jsnum \<Rightarrow> bool" where
  "Number_isNaN NaN = True"
| "Number_isNaN a = False"

definition or_zero :: "jsnum \<Rightarrow> jsnum" where
  \<comment> \<open>\<open>+x || 0\<close> for a number \<open>x\<close>: NaN and zero are falsy\<close>
  "or_zero x = (if x = NaN \<or> x = Fin 0 then Fin 0 else x)"

text \<open>The decimal literals of the source, as the numbers they denote.\<close>

definition lit_1e_14 :: jsnum where "lit_1e_14 = rnd (1 / 10 ^ 14)"
definition lit_1e_12 :: jsnum where "lit_1e_12 = rnd (1 / 10 ^ 12)"
definition lit_1e_300 :: jsnum where "lit_1e_300 = rnd (1 / 10 ^ 300)"
definition lit_1e_8 :: jsnum where "lit_1e_8 = rnd (1 / 10 ^ 8)"
definition lit_1e_7 :: jsnum where "lit_1e_7 = rnd (1 / 10 ^ 7)"

text \<open>
  The functions of \<open>Math\<close> that ECMAScript leaves implementation-approximated are a
  parameter of the model: a record of the library's functions. Every theorem about a
  function that takes the library holds for every library.
\<close>

record math =
  Math_hypot :: "jsnum \<Rightarrow> jsnum \<Rightarrow> jsnum"
  Math_atan2 :: "jsnum \<Rightarrow> jsnum \<Rightarrow> jsnum"
  Math_pow :: "jsnum \<Rightarrow> jsnum \<Rightarrow> jsnum"
  Math_exp :: "jsnum \<Rightarrow> jsnum"
  Math_log :: "jsnum \<Rightarrow> jsnum"
  Math_cos :: "jsnum \<Rightarrow> jsnum"
  Math_sin :: "jsnum \<Rightarrow> jsnum"
  Math_sqrt :: "jsnum \<Rightarrow> jsnum"

section \<open>Errors\<close>

text \<open>
  The source throws \<open>Error\<close> objects that differ in their message only. One constructor
  per \<open>throw\<close> site, named after the error kinds of the specification:
  \<^item> \<open>LexicalError\<close>: "Tokenizacao falhou: caracteres invalidos na expressao";
  \<^item> \<open>UnexpectedComma\<close>: "Separador de argumentos fora de funcao";
  \<^item> \<open>MissingOpenParen\<close>: "Parenteses desbalanceados: falta (";
  \<^item> \<open>UnbalancedParentheses\<close>: "Parenteses desbalanceados";
  \<^item> \<open>UnknownOperator t\<close>: "Operador desconhecido: t";
  \<^item> \<open>InvalidToken t\<close>: "Token invalido: t";
  \<^item> \<open>InsufficientFunctionArguments f\<close>: "Argumentos insuficientes para funcao f";
  \<^item> \<open>InsufficientOperatorArguments op\<close>: "Argumentos insuficientes para operador op";
  \<^item> \<open>InternalRPNError\<close>: "Erro interno no RPN -> AST";
  \<^item> \<open>MalformedExpression\<close>: "Expressao invalida ou ambigua";
  \<^item> \<open>InvalidImaginaryLiteral t\<close>, \<open>InvalidNumericLiteral t\<close>: "Literal ... invalido: t";
  \<^item> \<open>UnboundVariable x\<close>: "Variavel sem valor: x";
  \<^item> \<open>NonIntegerRootDegree\<close>: "root: segundo argumento deve ser inteiro real";
  \<^item> \<open>InvalidRootDegree\<close>: "root: n deve ser inteiro nao-zero";
  \<^item> \<open>UnknownFunction f\<close>: "Funcao desconhecida: f";
  \<^item> \<open>UnimplementedOperator op\<close>: "Operador nao implementado: op";
  \<^item> \<open>InvalidNode\<close>: "No AST invalido";
  \<^item> \<open>DivisionByZero\<close>: "Divisao por zero (complexo)";
  \<^item> \<open>TypeError\<close>: the runtime's own error, for a property read or a call on \<open>undefined\<close>.
\<close>

datatype error =
    LexicalError
  | UnexpectedComma
  | MissingOpenParen
  | UnbalancedParentheses
  | UnknownOperator string
  | InvalidToken string
  | InsufficientFunctionArguments string
  | InsufficientOperatorArguments string
  | InternalRPNError
  | MalformedExpression
  | InvalidImaginaryLiteral string
  | InvalidNumericLiteral string
  | UnboundVariable string
  | NonIntegerRootDegree
  | InvalidRootDegree
  | UnknownFunction string
  | UnimplementedOperator string
  | InvalidNode
  | DivisionByZero
  | TypeError

section \<open>The class Complex\<close>

record Complex_js =
  re :: jsnum
  im :: jsnum

definition Complex_new :: "jsnum \<Rightarrow> jsnum \<Rightarrow> Complex_js" where
  \<comment> \<open>the constructor: \<open>this.re = +re || 0; this.im = +im || 0\<close>\<close>
  "Complex_new x y = \<lparr>re = or_zero x, im = or_zero y\<rparr>"

definition Complex_add :: "Complex_js \<Rightarrow> Complex_js \<Rightarrow> Complex_js" where
  "Complex_add a b = Complex_new (js_add (re a) (re b)) (js_add (im a) (im b))"

definition Complex_sub :: "Complex_js \<Rightarrow> Complex_js \<Rightarrow> Complex_js" where
  "Complex_sub a b = Complex_new (js_sub (re a) (re b)) (js_sub (im a) (im b))"

definition Complex_mul :: "Complex_js \<Rightarrow> Complex_js \<Rightarrow> Complex_js" where
  "Complex_mul a b =
     Complex_new (js_sub (js_mul (re a) (re b)) (js_mul (im a) (im b)))
                 (js_add (js_mul (re a) (im b)) (js_mul (im a) (re b)))"

definition Complex_denom :: "Complex_js \<Rightarrow> jsnum" where
  \<comment> \<open>\<open>denom\<close> of \<open>div\<close>: \<open>b.re*b.re + b.im*b.im\<close>\<close>
  "Complex_denom b = js_add (js_mul (re b) (re b)) (js_mul (im b) (im b))"

definition Complex_div :: "Complex_js \<Rightarrow> Complex_js \<Rightarrow> error + Complex_js" where
  "Complex_div a b =
     (let denom = Complex_denom b
      in if js_eq denom (Fin 0) then Inl DivisionByZero
         else Inr (Complex_new
                (js_div (js_add (js_mul (re a) (re b)) (js_mul (im a) (im b))) denom)
                (js_div (js_sub (js_mul (im a) (re b)) (js_mul (re a) (im b))) denom)))"

definition Complex_conj :: "Complex_js \<Rightarrow> Complex_js" where
  "Complex_conj a = Complex_new (re a) (js_neg (im a))"

definition Complex_abs :: "math \<Rightarrow> Complex_js \<Rightarrow> jsnum" where
  "Complex_abs M a = Math_hypot M (re a) (im a)"

definition Complex_neg :: "Complex_js \<Rightarrow> Complex_js" where
  "Complex_neg a = Complex_new (js_neg (re a)) (js_neg (im a))"

definition Complex_eq :: "Complex_js \<Rightarrow> Complex_js \<Rightarrow> jsnum \<Rightarrow> bool" where
  "Complex_eq a b tol =
     (js_lt (Math_abs (js_sub (re a) (re b))) tol \<and> js_lt (Math_abs (js_sub (im a) (im b))) tol)"

text \<open>
  The loop of \<open>pow\<close>, \<open>for (let i = 0; i < n; i++) res = res.mul(base)\<close>. Its counter is a
  number, and \<open>i++\<close> is a rounded addition, so the loop is not structurally terminating:
  \<open>None\<close> is the loop that never ends.
\<close>

partial_function (option) pow_loop ::
    "jsnum \<Rightarrow> jsnum \<Rightarrow> Complex_js \<Rightarrow> Complex_js \<Rightarrow> Complex_js option" where
  "pow_loop i n base res =
     (if js_lt i n then pow_loop (js_add i (Fin 1)) n base (Complex_mul res base)
      else Some res)"

definition Complex_pow :: "math \<Rightarrow> Complex_js \<Rightarrow> Complex_js \<Rightarrow> (error + Complex_js) option" where
  "Complex_pow M a b =
     (if js_lt (Math_abs (im b)) lit_1e_14 \<and> Number_isInteger (re b) then
        let n = re b
        in if js_eq n (Fin 0) then Some (Inr (Complex_new (Fin 1) (Fin 0)))
           else
             let res = Complex_new (Fin 1) (Fin 0);
                 base = Complex_new (re a) (im a);
                 positive = js_lt (Fin 0) n
             in case pow_loop (Fin 0) (Math_abs n) base res of
                  None \<Rightarrow> None
                | Some res' \<Rightarrow>
                    if \<not> positive then Some (Complex_div (Complex_new (Fin 1) (Fin 0)) res')
                    else Some (Inr res')
      else
        let r = Complex_abs M a;
            theta = Math_atan2 M (im a) (re a);
            x = re b;
            c = im b;
            mag = js_mul (Math_pow M r x) (Math_exp M (js_mul (js_neg c) theta));
            ang = js_add (js_mul x theta) (js_mul c (Math_log M (Math_max r lit_1e_300)))
        in Some (Inr (Complex_new (js_mul mag (Math_cos M ang)) (js_mul mag (Math_sin M ang)))))"

definition Complex_sqrt :: "math \<Rightarrow> Complex_js \<Rightarrow> Complex_js" where
  "Complex_sqrt M a =
     (let r = Complex_abs M a;
          x = Math_sqrt M (js_div (js_add r (re a)) (Fin 2));
          y = (if js_le (Fin 0) (im a) then Math_sqrt M (js_div (js_sub r (re a)) (Fin 2))
               else js_neg (Math_sqrt M (js_div (js_sub r (re a)) (Fin 2))))
      in Complex_new x y)"

definition Complex_root :: "math \<Rightarrow> Complex_js \<Rightarrow> jsnum \<Rightarrow> error + Complex_js" where
  "Complex_root M a n =
     (if \<not> Number_isInteger n \<or> js_eq n (Fin 0) then Inl InvalidRootDegree
      else
        let r = Complex_abs M a;
            theta = Math_atan2 M (im a) (re a);
            mag = Math_pow M r (js_div (Fin 1) n);
            ang = js_div theta n
        in Inr (Complex_new (js_mul mag (Math_cos M ang)) (js_mul mag (Math_sin M ang))))"

section \<open>Regular expressions\<close>

text \<open>
  The regular expressions of the source, by a backtracking matcher with the priorities
  of JavaScript: a quantifier is greedy and gives characters back one at a time, an
  alternation tries its branches in order. The matcher is written in continuation-passing
  style: \<open>rx_match r s k\<close> matches \<open>r\<close> at the start of \<open>s\<close> and hands the rest of the
  input to \<open>k\<close>; when \<open>k\<close> fails the matcher backtracks. Every quantifier of the source
  stands on a character class, so \<open>Star\<close> takes a class.

  A string is a list of \<open>char\<close>: the code units below 256.
\<close>

datatype rx =
    Chr "char \<Rightarrow> bool"
  | Star "char \<Rightarrow> bool"
  | Opt rx
  | Seq rx rx
  | Alt rx rx

fun rx_match :: "rx \<Rightarrow> string \<Rightarrow> (string \<Rightarrow> 'a option) \<Rightarrow> 'a option" where
  "rx_match (Chr p) [] k = None"
| "rx_match (Chr p) (c # cs) k = (if p c then k cs else None)"
| "rx_match (Star p) [] k = k []"
| "rx_match (Star p) (c # cs) k =
     (if p c then (case rx_match (Star p) cs k of Some x \<Rightarrow> Some x | None \<Rightarrow> k (c # cs))
      else k (c # cs))"
| "rx_match (Opt r) s k = (case rx_match r s k of Some x \<Rightarrow> Some x | None \<Rightarrow> k s)"
| "rx_match (Seq r1 r2) s k = rx_match r1 s (\<lambda>s'. rx_match r2 s' k)"
| "rx_match (Alt r1 r2) s k =
     (case rx_match r1 s k of Some x \<Rightarrow> Some x | None \<Rightarrow> rx_match r2 s k)"

definition Plus :: "(char \<Rightarrow> bool) \<Rightarrow> rx" where
  "Plus p = Seq (Chr p) (Star p)"

definition rx_test :: "rx \<Rightarrow> string \<Rightarrow> bool" where
  \<comment> \<open>\<open>/^r$/.test(s)\<close>\<close>
  "rx_test r s = (rx_match r s (\<lambda>rest. if rest = [] then Some () else None) \<noteq> None)"

definition char_range :: "char \<Rightarrow> char \<Rightarrow> char \<Rightarrow> bool" where
  "char_range lo hi c = (of_char lo \<le> (of_char c :: nat) \<and> (of_char c :: nat) \<le> of_char hi)"

definition is_digit :: "char \<Rightarrow> bool" where
  \<comment> \<open>\<open>[0-9]\<close>, \<open>\d\<close>\<close>
  "is_digit c = char_range CHR ''0'' CHR ''9'' c"

definition is_ident_start :: "char \<Rightarrow> bool" where
  \<comment> \<open>\<open>[A-Za-z_]\<close>\<close>
  "is_ident_start c =
     (char_range CHR ''A'' CHR ''Z'' c \<or> char_range CHR ''a'' CHR ''z'' c \<or> c = CHR ''_'')"

definition is_word :: "char \<Rightarrow> bool" where
  \<comment> \<open>\<open>\w\<close>\<close>
  "is_word c = (is_ident_start c \<or> is_digit c)"

definition is_space :: "char \<Rightarrow> bool" where
  \<comment> \<open>\<open>\s\<close>: tab, line feed, vertical tab, form feed, carriage return, space, no-break space\<close>
  "is_space c = ((of_char c :: nat) \<in> {9, 10, 11, 12, 13, 32, 160})"

definition is_punct :: "char \<Rightarrow> bool" where
  \<comment> \<open>\<open>[()+\-*/,]\<close>\<close>
  "is_punct c = (c \<in> set ''()+-*/,'')"

definition NUMBER_rx :: rx where
  \<comment> \<open>\<open>[0-9]*\.?[0-9]+(?:e[+-]?\d+)?i?\<close>\<close>
  "NUMBER_rx =
     Seq (Star is_digit)
    (Seq (Opt (Chr (\<lambda>c. c = CHR ''.'')))
    (Seq (Plus is_digit)
    (Seq (Opt (Seq (Chr (\<lambda>c. c = CHR ''e''))
              (Seq (Opt (Chr (\<lambda>c. c = CHR ''+'' \<or> c = CHR ''-''))) (Plus is_digit))))
         (Opt (Chr (\<lambda>c. c = CHR ''i''))))))"

definition IDENT_rx :: rx where
  \<comment> \<open>\<open>[A-Za-z_]\w*\<close>\<close>
  "IDENT_rx = Seq (Chr is_ident_start) (Star is_word)"

definition TOKEN_group :: rx where
  \<comment> \<open>the capture group of \<open>TOKEN_REGEX\<close>\<close>
  "TOKEN_group =
     Alt NUMBER_rx
    (Alt IDENT_rx
    (Alt (Seq (Chr (\<lambda>c. c = CHR ''*'')) (Chr (\<lambda>c. c = CHR ''*'')))
    (Alt (Chr (\<lambda>c. c = CHR ''^''))
         (Chr is_punct))))"

section \<open>Tokenizer\<close>

definition TOKEN_REGEX_exec :: "string \<Rightarrow> (string \<times> string) option" where
  \<comment> \<open>one sticky \<open>TOKEN_REGEX.exec\<close> at the start of the remaining input: the text of
      the capture group and the input after the match\<close>
  "TOKEN_REGEX_exec s =
     rx_match (Star is_space) s (\<lambda>s1.
       rx_match TOKEN_group s1 (\<lambda>s2.
         rx_match (Star is_space) s2 (\<lambda>s3.
           Some (take (length s1 - length s2) s1, s3))))"

text \<open>
  What a regular expression can consume. The matcher is sound for it (lemma
  \<open>rx_match_sound\<close>); the loop of the tokenizer terminates because the capture group
  consumes at least one character.
\<close>

fun rx_lang :: "rx \<Rightarrow> string set" where
  "rx_lang (Chr p) = {w. \<exists>c. w = [c] \<and> p c}"
| "rx_lang (Star p) = {w. list_all p w}"
| "rx_lang (Opt r) = insert [] (rx_lang r)"
| "rx_lang (Seq r1 r2) = {w. \<exists>u v. w = u @ v \<and> u \<in> rx_lang r1 \<and> v \<in> rx_lang r2}"
| "rx_lang (Alt r1 r2) = rx_lang r1 \<union> rx_lang r2"

lemma rx_match_sound:
  "rx_match r s k = Some x \<Longrightarrow> \<exists>pre rest. s = pre @ rest \<and> pre \<in> rx_lang r \<and> k rest = Some x"
proof (induction r s k arbitrary: x rule: rx_match.induct)
  case (1 p k)
  then show ?case by simp
next
  case (2 p c cs k)
  then have "p c" "k cs = Some x" by (auto split: if_splits)
  then have "c # cs = [c] @ cs \<and> [c] \<in> rx_lang (Chr p) \<and> k cs = Some x" by simp
  then show ?case by blast
next
  case (3 p k)
  then show ?case by simp
next
  case (4 p c cs k)
  show ?case
  proof (cases "p c \<and> rx_match (Star p) cs k \<noteq> None")
    case True
    then obtain y where y: "rx_match (Star p) cs k = Some y" by blast
    with True "4.prems" have "y = x" by simp
    with y True "4.IH" obtain pre rest where
      "cs = pre @ rest" "pre \<in> rx_lang (Star p)" "k rest = Some x" by blast
    with True have "c # cs = (c # pre) @ rest \<and> c # pre \<in> rx_lang (Star p) \<and> k rest = Some x"
      by simp
    then show ?thesis by blast
  next
    case False
    with "4.prems" have "k (c # cs) = Some x" by (auto split: if_splits option.splits)
    then have "c # cs = [] @ (c # cs) \<and> [] \<in> rx_lang (Star p) \<and> k (c # cs) = Some x" by simp
    then show ?thesis by blast
  qed
next
  case (5 r s k)
  show ?case
  proof (cases "rx_match r s k")
    case None
    with "5.prems" have "k s = Some x" by simp
    then have "s = [] @ s \<and> [] \<in> rx_lang (Opt r) \<and> k s = Some x" by simp
    then show ?thesis by blast
  next
    case (Some y)
    with "5.prems" have "rx_match r s k = Some x" by simp
    with "5.IH" show ?thesis by fastforce
  qed
next
  case (6 r1 r2 s k)
  from "6.IH"(2) [OF "6.prems" [simplified]] obtain u rest1 where
    u: "s = u @ rest1" "u \<in> rx_lang r1" "rx_match r2 rest1 k = Some x" by blast
  from "6.IH"(1) [OF u(3)] obtain v rest where
    v: "rest1 = v @ rest" "v \<in> rx_lang r2" "k rest = Some x" by blast
  from u v have "s = (u @ v) @ rest \<and> u @ v \<in> rx_lang (Seq r1 r2) \<and> k rest = Some x"
    by auto
  then show ?case by blast
next
  case (7 r1 r2 s k)
  show ?case
  proof (cases "rx_match r1 s k")
    case None
    with "7.prems" have "rx_match r2 s k = Some x" by simp
    with "7.IH"(2) None show ?thesis by fastforce
  next
    case (Some y)
    with "7.prems" have "rx_match r1 s k = Some x" by simp
    with "7.IH"(1) show ?thesis by fastforce
  qed
qed

definition is_token_char :: "char \<Rightarrow> bool" where
  \<comment> \<open>the characters a token can hold\<close>
  "is_token_char c = (is_word c \<or> c \<in> set ''.+-*/(),^'')"

fun rx_nonempty :: "rx \<Rightarrow> bool" where
  \<comment> \<open>a sufficient condition for \<open>r\<close> to consume at least one character\<close>
  "rx_nonempty (Chr p) = True"
| "rx_nonempty (Star p) = False"
| "rx_nonempty (Opt r) = False"
| "rx_nonempty (Seq r1 r2) = (rx_nonempty r1 \<or> rx_nonempty r2)"
| "rx_nonempty (Alt r1 r2) = (rx_nonempty r1 \<and> rx_nonempty r2)"

fun rx_classes :: "rx \<Rightarrow> (char \<Rightarrow> bool) list" where
  \<comment> \<open>the character classes of \<open>r\<close>\<close>
  "rx_classes (Chr p) = [p]"
| "rx_classes (Star p) = [p]"
| "rx_classes (Opt r) = rx_classes r"
| "rx_classes (Seq r1 r2) = rx_classes r1 @ rx_classes r2"
| "rx_classes (Alt r1 r2) = rx_classes r1 @ rx_classes r2"

lemma rx_lang_nonempty: "rx_nonempty r \<Longrightarrow> w \<in> rx_lang r \<Longrightarrow> w \<noteq> []"
  by (induction r arbitrary: w) auto

lemma rx_lang_classes:
  "list_all (\<lambda>p. \<forall>c. p c \<longrightarrow> Q c) (rx_classes r) \<Longrightarrow> w \<in> rx_lang r \<Longrightarrow> list_all Q w"
proof (induction r arbitrary: w)
  case (Chr p)
  then show ?case by auto
next
  case (Star p)
  then show ?case by (auto simp: list_all_iff)
next
  case (Opt r)
  then show ?case by auto
next
  case (Seq r1 r2)
  from Seq.prems(2) obtain u v where w: "w = u @ v" "u \<in> rx_lang r1" "v \<in> rx_lang r2"
    by auto
  from Seq.prems(1) Seq.IH w(2,3) have "list_all Q u" "list_all Q v" by simp_all
  with w(1) show ?case by simp
next
  case (Alt r1 r2)
  then show ?case by auto
qed

lemma TOKEN_group_nonempty: "rx_nonempty TOKEN_group"
  by (simp add: TOKEN_group_def NUMBER_rx_def IDENT_rx_def Plus_def)

lemma TOKEN_group_classes:
  "list_all (\<lambda>p. \<forall>c. p c \<longrightarrow> is_token_char c) (rx_classes TOKEN_group)"
  by (simp add: TOKEN_group_def NUMBER_rx_def IDENT_rx_def Plus_def is_token_char_def
      is_word_def is_punct_def is_ident_start_def char_range_def)

lemma TOKEN_group_lang:
  assumes "t \<in> rx_lang TOKEN_group"
  shows "t \<noteq> [] \<and> list_all is_token_char t"
  using assms rx_lang_nonempty [OF TOKEN_group_nonempty] rx_lang_classes [OF TOKEN_group_classes]
  by blast

lemma TOKEN_REGEX_exec_sound:
  assumes "TOKEN_REGEX_exec s = Some (t, s')"
  shows "\<exists>w1 w2. s = w1 @ t @ w2 @ s' \<and> list_all is_space w1 \<and> list_all is_space w2
           \<and> t \<in> rx_lang TOKEN_group"
proof -
  from rx_match_sound [OF assms [unfolded TOKEN_REGEX_exec_def]] obtain w1 s1 where
    1: "s = w1 @ s1" "w1 \<in> rx_lang (Star is_space)"
       "rx_match TOKEN_group s1 (\<lambda>s2. rx_match (Star is_space) s2 (\<lambda>s3.
           Some (take (length s1 - length s2) s1, s3))) = Some (t, s')"
    by blast
  from rx_match_sound [OF 1(3)] obtain g s2 where
    2: "s1 = g @ s2" "g \<in> rx_lang TOKEN_group"
       "rx_match (Star is_space) s2 (\<lambda>s3. Some (take (length s1 - length s2) s1, s3)) = Some (t, s')"
    by blast
  from rx_match_sound [OF 2(3)] obtain w2 s3 where
    3: "s2 = w2 @ s3" "w2 \<in> rx_lang (Star is_space)"
       "Some (take (length s1 - length s2) s1, s3) = Some (t, s')"
    by blast
  from 2(1) 3(3) have "t = g" "s3 = s'" by auto
  with 1(1) 2(1) 3(1) have "s = w1 @ t @ w2 @ s'" by simp
  moreover from 1(2) 3(2) have "list_all is_space w1" "list_all is_space w2" by simp_all
  moreover from 2(2) \<open>t = g\<close> have "t \<in> rx_lang TOKEN_group" by simp
  ultimately show ?thesis by blast
qed

lemma TOKEN_REGEX_exec_shorter:
  "TOKEN_REGEX_exec s = Some (t, s') \<Longrightarrow> length s' < length s"
proof -
  assume "TOKEN_REGEX_exec s = Some (t, s')"
  from TOKEN_REGEX_exec_sound [OF this] obtain w1 w2 where
    "s = w1 @ t @ w2 @ s'" "t \<in> rx_lang TOKEN_group" by blast
  moreover from this TOKEN_group_lang have "t \<noteq> []" by blast
  ultimately show ?thesis by simp
qed

function tokenize_loop :: "string \<Rightarrow> string list" where
  \<comment> \<open>\<open>while ((m = TOKEN_REGEX.exec(input)) !== null) tokens.push(m[1])\<close>, on the input
      from \<open>lastIndex\<close> on\<close>
  "tokenize_loop s =
     (case TOKEN_REGEX_exec s of None \<Rightarrow> [] | Some (t, s') \<Rightarrow> t # tokenize_loop s')"
  by pat_completeness auto
termination
  by (relation "measure length") (auto simp: TOKEN_REGEX_exec_shorter)

declare tokenize_loop.simps [simp del]

definition tokenize :: "string \<Rightarrow> error + string list" where
  "tokenize input =
     (let tokens = tokenize_loop input;
          joined = concat tokens;
          cleaned = filter (\<lambda>c. \<not> is_space c) input
      in if joined \<noteq> cleaned then Inl LexicalError else Inr tokens)"

section \<open>Parser\<close>

text \<open>
  The two arrays of the shunting-yard loop hold plain strings (operators and the
  parenthesis marker) and objects (\<open>{type:'number', value}\<close>, \<open>{type:'var', name}\<close>,
  \<open>{type:'func', name}\<close>): one datatype for the four. \<open>output\<close> is a list in the order of
  the array; the stack \<open>ops\<close> is a list with its top first.
\<close>

datatype item = NumberTok string | VarTok string | FuncTok string | StrTok string

record opinfo =
  prec :: nat
  assoc :: string
  arity :: nat

definition OPERATORS :: "string \<rightharpoonup> opinfo" where
  \<comment> \<open>the field \<open>args\<close> of the source is \<open>arity\<close> here\<close>
  "OPERATORS = map_of
     [(''+'', \<lparr>prec = 2, assoc = ''L'', arity = 2\<rparr>),
      (''-'', \<lparr>prec = 2, assoc = ''L'', arity = 2\<rparr>),
      (''*'', \<lparr>prec = 3, assoc = ''L'', arity = 2\<rparr>),
      (''/'', \<lparr>prec = 3, assoc = ''L'', arity = 2\<rparr>),
      (''**'', \<lparr>prec = 5, assoc = ''R'', arity = 2\<rparr>),
      (''^'', \<lparr>prec = 5, assoc = ''R'', arity = 2\<rparr>),
      (''u-'', \<lparr>prec = 6, assoc = ''R'', arity = 1\<rparr>)]"

definition isNumberToken :: "string \<Rightarrow> bool" where
  "isNumberToken t = rx_test NUMBER_rx t"

definition isIdentifier :: "string \<Rightarrow> bool" where
  "isIdentifier t = rx_test IDENT_rx t"

fun pop_to_paren :: "item list \<Rightarrow> item list \<Rightarrow> item list \<times> item list" where
  \<comment> \<open>\<open>while (ops.length && ops[ops.length-1] !== '(') output.push(ops.pop())\<close>\<close>
  "pop_to_paren out [] = (out, [])"
| "pop_to_paren out (topv # stk) =
     (if topv = StrTok ''('' then (out, topv # stk) else pop_to_paren (out @ [topv]) stk)"

fun pop_operators :: "opinfo \<Rightarrow> item list \<Rightarrow> item list \<Rightarrow> item list \<times> item list" where
  \<comment> \<open>the \<open>while (ops.length)\<close> loop of the operator branch\<close>
  "pop_operators o1 out [] = (out, [])"
| "pop_operators o1 out (topv # stk) =
     (case topv of
        StrTok s \<Rightarrow>
          if s = ''('' then (out, topv # stk)
          else (case OPERATORS s of
                  None \<Rightarrow> (out, topv # stk)
                | Some o2 \<Rightarrow>
                    if (assoc o1 = ''L'' \<and> prec o1 \<le> prec o2) \<or> (assoc o1 = ''R'' \<and> prec o1 < prec o2)
                    then pop_operators o1 (out @ [topv]) stk
                    else (out, topv # stk))
      | _ \<Rightarrow> (out, topv # stk))"

definition unary_context :: "string option \<Rightarrow> bool" where
  \<comment> \<open>\<open>prev === null || prev === '(' || prev === ',' || (prev in OPERATORS)\<close>\<close>
  "unary_context prev =
     (prev = None \<or> prev = Some ''('' \<or> prev = Some '','' \<or>
      (case prev of None \<Rightarrow> False | Some p \<Rightarrow> p \<in> dom OPERATORS))"

record pstate =
  outp :: "item list"  \<comment> \<open>the array \<open>output\<close>\<close>
  ops :: "item list"
  prev :: "string option"

definition parse_token :: "string \<Rightarrow> string option \<Rightarrow> pstate \<Rightarrow> error + pstate" where
  \<comment> \<open>the body of the \<open>for\<close> loop over the tokens: \<open>t\<close> is \<open>tokens[i]\<close>, \<open>nxt\<close> is
      \<open>tokens[i+1]\<close> (\<open>None\<close> past the end)\<close>
  "parse_token t nxt st =
     (if isNumberToken t then
        Inr (st\<lparr>outp := outp st @ [NumberTok t], prev := Some ''number''\<rparr>)
      else if isIdentifier t then
        (if nxt = Some ''('' then Inr (st\<lparr>ops := FuncTok t # ops st, prev := Some ''id''\<rparr>)
         else Inr (st\<lparr>outp := outp st @ [VarTok t], prev := Some ''id''\<rparr>))
      else if t = '','' then
        (case pop_to_paren (outp st) (ops st) of
           (output', ops') \<Rightarrow>
             if ops' = [] then Inl UnexpectedComma
             else Inr \<lparr>outp = output', ops = ops', prev = Some '',''\<rparr>)
      else if t = ''('' then Inr (st\<lparr>ops := StrTok ''('' # ops st, prev := Some ''(''\<rparr>)
      else if t = '')'' then
        (case pop_to_paren (outp st) (ops st) of
           (output', ops') \<Rightarrow>
             if ops' = [] then Inl MissingOpenParen
             else (case tl ops' of
                     FuncTok f # ops'' \<Rightarrow>
                       Inr \<lparr>outp = output' @ [FuncTok f], ops = ops'', prev = Some '')''\<rparr>
                   | ops'' \<Rightarrow> Inr \<lparr>outp = output', ops = ops'', prev = Some '')''\<rparr>))
      else if t \<in> dom OPERATORS \<or> t = ''^'' \<or> t = ''**'' then
        (let op = (if t = ''-'' \<and> unary_context (prev st) then ''u-'' else t)
         in case (case OPERATORS op of Some o1 \<Rightarrow> Some o1 | None \<Rightarrow> OPERATORS t) of
              None \<Rightarrow> Inl (UnknownOperator t)
            | Some o1 \<Rightarrow>
                (case pop_operators o1 (outp st) (ops st) of
                   (output', ops') \<Rightarrow>
                     Inr \<lparr>outp = output', ops = StrTok op # ops', prev = Some op\<rparr>))
      else Inl (InvalidToken t))"

fun shunting_yard :: "string list \<Rightarrow> pstate \<Rightarrow> error + pstate" where
  \<comment> \<open>the \<open>for\<close> loop, on the tokens from index \<open>i\<close> on\<close>
  "shunting_yard [] st = Inr st"
| "shunting_yard (t # ts) st =
     (case parse_token t (case ts of [] \<Rightarrow> None | nxt # _ \<Rightarrow> Some nxt) st of
        Inl e \<Rightarrow> Inl e
      | Inr st' \<Rightarrow> shunting_yard ts st')"

fun drain_ops :: "item list \<Rightarrow> item list \<Rightarrow> error + item list" where
  \<comment> \<open>the final \<open>while (ops.length)\<close>\<close>
  "drain_ops out [] = Inr out"
| "drain_ops out (topv # stk) =
     (if topv = StrTok ''('' \<or> topv = StrTok '')'' then Inl UnbalancedParentheses
      else drain_ops (out @ [topv]) stk)"

datatype node =
    Literal string
  | Var string
  | Call string "node list"
  | Op string "node list"

fun pop_args :: "nat \<Rightarrow> node list \<Rightarrow> node list \<Rightarrow> (node list \<times> node list) option" where
  \<comment> \<open>\<open>for (i < arity) { if (!stack.length) throw ...; args.unshift(stack.pop()) }\<close>;
      the stack has its top first; \<open>None\<close> is the throw\<close>
  "pop_args 0 stack args = Some (args, stack)"
| "pop_args (Suc n) [] args = None"
| "pop_args (Suc n) (x # stack) args = pop_args n stack (x # args)"

fun build_ast :: "item list \<Rightarrow> node list \<Rightarrow> error + node list" where
  \<comment> \<open>\<open>for (const tok of output)\<close>, with the value stack\<close>
  "build_ast [] stack = Inr stack"
| "build_ast (NumberTok v # toks) stack = build_ast toks (Literal v # stack)"
| "build_ast (VarTok x # toks) stack = build_ast toks (Var x # stack)"
| "build_ast (FuncTok fn # toks) stack =
     (let n = (if fn = ''root'' then 2 else 1)
      in case pop_args n stack [] of
           None \<Rightarrow> Inl (InsufficientFunctionArguments fn)
         | Some (args, stack') \<Rightarrow> build_ast toks (Call fn args # stack'))"
| "build_ast (StrTok op # toks) stack =
     (case OPERATORS op of
        None \<Rightarrow> Inl TypeError
      | Some info \<Rightarrow>
          (case pop_args (arity info) stack [] of
             None \<Rightarrow> Inl (InsufficientOperatorArguments op)
           | Some (args, stack') \<Rightarrow> build_ast toks (Op op args # stack')))"

definition parseToAST :: "string \<Rightarrow> error + node" where
  "parseToAST input =
     (case tokenize input of
        Inl e \<Rightarrow> Inl e
      | Inr tokens \<Rightarrow>
          (case shunting_yard tokens \<lparr>outp = [], ops = [], prev = None\<rparr> of
             Inl e \<Rightarrow> Inl e
           | Inr st \<Rightarrow>
               (case drain_ops (outp st) (ops st) of
                  Inl e \<Rightarrow> Inl e
                | Inr rpn \<Rightarrow>
                    (case build_ast rpn [] of
                       Inl e \<Rightarrow> Inl e
                     | Inr stack \<Rightarrow>
                         if length stack \<noteq> 1 then Inl MalformedExpression
                         else Inr (hd stack)))))"

section \<open>AST utilities\<close>

fun join_space :: "string list \<Rightarrow> string" where
  \<comment> \<open>\<open>.join(' ')\<close>\<close>
  "join_space [] = []"
| "join_space [x] = x"
| "join_space (x # y # ys) = x @ '' '' @ join_space (y # ys)"

fun astToLisp :: "node \<Rightarrow> string" where
  "astToLisp (Literal v) = v"
| "astToLisp (Var x) = x"
| "astToLisp (Call name args) = ''('' @ name @ '' '' @ join_space (map astToLisp args) @ '')''"
| "astToLisp (Op name args) =
     (case args of
        [a] \<Rightarrow> ''('' @ name @ '' '' @ astToLisp a @ '')''
      | _ \<Rightarrow> ''('' @ name @ '' '' @ join_space (map astToLisp args) @ '')'')"

definition set_add :: "string \<Rightarrow> string list \<Rightarrow> string list" where
  \<comment> \<open>\<open>Set.prototype.add\<close>, a set being the list of its elements in insertion order\<close>
  "set_add x xs = (if x \<in> set xs then xs else xs @ [x])"

fun collectVars :: "node \<Rightarrow> string list \<Rightarrow> string list" where
  "collectVars (Literal v) vars = vars"
| "collectVars (Var x) vars = set_add x vars"
| "collectVars (Call name args) vars = fold collectVars args vars"
| "collectVars (Op name args) vars = fold collectVars args vars"

section \<open>Evaluation\<close>

text \<open>
  \<open>Number(s)\<close> for a string \<open>s\<close> (ECMAScript StringToNumber): white space is trimmed; the
  empty string is \<open>0\<close>; a decimal literal has an optional sign, digits with an optional
  point, and an optional exponent; \<open>Infinity\<close> takes a sign too; binary, octal and
  hexadecimal literals take none; everything else is NaN. The value is rounded to the
  nearest number.
\<close>

definition digit_value :: "char \<Rightarrow> nat" where
  "digit_value c =
     (if is_digit c then of_char c - 48
      else if char_range CHR ''a'' CHR ''f'' c then of_char c - 87
      else of_char c - 55)"

definition digits_value :: "nat \<Rightarrow> string \<Rightarrow> nat" where
  \<comment> \<open>the value of a digit string in base \<open>b\<close>\<close>
  "digits_value b ds = foldl (\<lambda>a c. b * a + digit_value c) 0 ds"

definition trim :: "string \<Rightarrow> string" where
  "trim s = rev (dropWhile is_space (rev (dropWhile is_space s)))"

definition exponent_part :: "string \<Rightarrow> int option" where
  \<comment> \<open>what follows the mantissa: nothing, or \<open>e\<close> or \<open>E\<close>, an optional sign and digits\<close>
  "exponent_part s =
     (case s of
        [] \<Rightarrow> Some 0
      | c # r \<Rightarrow>
          if c = CHR ''e'' \<or> c = CHR ''E'' then
            (case r of
               [] \<Rightarrow> None
             | d # r' \<Rightarrow>
                 let ds = (if d = CHR ''+'' \<or> d = CHR ''-'' then r' else r)
                 in if ds \<noteq> [] \<and> list_all is_digit ds
                    then Some (if d = CHR ''-'' then - int (digits_value 10 ds)
                               else int (digits_value 10 ds))
                    else None)
          else None)"

definition unsigned_decimal :: "string \<Rightarrow> rat option" where
  "unsigned_decimal s =
     (let ip = takeWhile is_digit s;
          r1 = dropWhile is_digit s;
          fp = (case r1 of [] \<Rightarrow> [] | c # r \<Rightarrow> if c = CHR ''.'' then takeWhile is_digit r else []);
          r2 = (case r1 of [] \<Rightarrow> [] | c # r \<Rightarrow> if c = CHR ''.'' then dropWhile is_digit r else r1)
      in if ip = [] \<and> fp = [] then None
         else (case exponent_part r2 of
                 None \<Rightarrow> None
               | Some e \<Rightarrow>
                   Some ((of_nat (digits_value 10 ip)
                          + of_nat (digits_value 10 fp) / 10 ^ length fp) * 10 powi e)))"

definition non_decimal :: "string \<Rightarrow> jsnum option" where
  \<comment> \<open>\<open>0b\<close>, \<open>0o\<close>, \<open>0x\<close> literals; \<open>None\<close> when the string does not start as one\<close>
  "non_decimal s =
     (case s of
        z # p # ds \<Rightarrow>
          if z \<noteq> CHR ''0'' then None
          else if p = CHR ''b'' \<or> p = CHR ''B'' then
            Some (if ds \<noteq> [] \<and> list_all (char_range CHR ''0'' CHR ''1'') ds
                  then rnd (of_nat (digits_value 2 ds)) else NaN)
          else if p = CHR ''o'' \<or> p = CHR ''O'' then
            Some (if ds \<noteq> [] \<and> list_all (char_range CHR ''0'' CHR ''7'') ds
                  then rnd (of_nat (digits_value 8 ds)) else NaN)
          else if p = CHR ''x'' \<or> p = CHR ''X'' then
            Some (if ds \<noteq> [] \<and> list_all (\<lambda>c. is_digit c \<or> char_range CHR ''a'' CHR ''f'' c
                                              \<or> char_range CHR ''A'' CHR ''F'' c) ds
                  then rnd (of_nat (digits_value 16 ds)) else NaN)
          else None
      | _ \<Rightarrow> None)"

definition Number :: "string \<Rightarrow> jsnum" where
  "Number s =
     (let t = trim s
      in if t = [] then Fin 0
         else (case non_decimal t of
                 Some v \<Rightarrow> v
               | None \<Rightarrow>
                   let negative = (hd t = CHR ''-'');
                       u = (if hd t = CHR ''+'' \<or> hd t = CHR ''-'' then tl t else t)
                   in if u = ''Infinity'' then (if negative then NInf else PInf)
                      else (case unsigned_decimal u of
                              None \<Rightarrow> NaN
                            | Some q \<Rightarrow> rnd (if negative then - q else q))))"

definition parseComplexLiteral :: "string \<Rightarrow> error + Complex_js" where
  "parseComplexLiteral token =
     (if token \<noteq> [] \<and> last token = CHR ''i'' then
        let num = butlast token;
            v = (if num = [] \<or> num = ''+'' then Fin 1
                 else if num = ''-'' then Fin (- 1)
                 else Number num)
        in if Number_isNaN v then Inl (InvalidImaginaryLiteral token)
           else Inr (Complex_new (Fin 0) v)
      else
        let n = Number token
        in if Number_isNaN n then Inl (InvalidNumericLiteral token)
           else Inr (Complex_new n (Fin 0)))"

text \<open>
  An environment is a plain object whose properties hold Complex values: the map from the
  names of its own properties to their values. The test \<open>name in env\<close> is also true of a
  name that the object inherits from \<open>Object.prototype\<close>; for such a name, with no own
  property, \<open>env[name]\<close> is the inherited member (a function, or the prototype itself for
  \<open>__proto__\<close>) and no error is thrown. So a value is a Complex or an inherited member.
  An inherited member has none of the methods of the class, calling one on it throws a
  \<open>TypeError\<close>; its \<open>re\<close> and \<open>im\<close> are \<open>undefined\<close>, which arithmetic, \<open>Math\<close> and
  \<open>Number.isInteger\<close> treat as NaN.

  The result of an evaluation is \<open>None\<close> when it does not return (a power loop that never
  ends), \<open>Some (Inl e)\<close> when it throws \<open>e\<close>, \<open>Some (Inr v)\<close> when it returns \<open>v\<close>.
\<close>

type_synonym env = "string \<rightharpoonup> Complex_js"

type_synonym 'a result = "(error + 'a) option"

datatype jsval = Cx Complex_js | Inherited string

definition Object_prototype :: "string list" where
  \<comment> \<open>the names of the properties of \<open>Object.prototype\<close> in Node.js\<close>
  "Object_prototype =
     [''constructor'', ''__defineGetter__'', ''__defineSetter__'', ''hasOwnProperty'',
      ''__lookupGetter__'', ''__lookupSetter__'', ''isPrototypeOf'', ''propertyIsEnumerable'',
      ''toString'', ''valueOf'', ''__proto__'', ''toLocaleString'']"

fun operand :: "jsval \<Rightarrow> Complex_js" where
  \<comment> \<open>what the reads \<open>b.re\<close> and \<open>b.im\<close> of an argument \<open>b\<close> give to the arithmetic\<close>
  "operand (Cx z) = z"
| "operand (Inherited x) = \<lparr>re = NaN, im = NaN\<rparr>"

fun returned :: "error + Complex_js \<Rightarrow> error + jsval" where
  "returned (Inl e) = Inl e"
| "returned (Inr z) = Inr (Cx z)"

fun invoke :: "jsval \<Rightarrow> (Complex_js \<Rightarrow> 'a result) \<Rightarrow> 'a result" where
  \<comment> \<open>a call \<open>v.method(...)\<close> of a method of the class on the value \<open>v\<close>\<close>
  "invoke (Cx z) method = method z"
| "invoke (Inherited x) method = Some (Inl TypeError)"

fun evaluateAST :: "math \<Rightarrow> node \<Rightarrow> env \<Rightarrow> jsval result"
  and evaluate_args :: "math \<Rightarrow> node list \<Rightarrow> env \<Rightarrow> jsval list result" where
  "evaluateAST M (Literal v) env = Some (returned (parseComplexLiteral v))"
| "evaluateAST M (Var x) env =
     (case env x of
        Some z \<Rightarrow> Some (Inr (Cx z))
      | None \<Rightarrow>
          if x \<in> set Object_prototype then Some (Inr (Inherited x))
          else Some (Inl (UnboundVariable x)))"
| "evaluateAST M (Call name args) env =
     (case evaluate_args M args env of
        None \<Rightarrow> None
      | Some (Inl e) \<Rightarrow> Some (Inl e)
      | Some (Inr vs) \<Rightarrow>
          if name = ''conj'' then
            (case vs of
               [] \<Rightarrow> Some (Inl TypeError)
             | v # _ \<Rightarrow> invoke v (\<lambda>z. Some (Inr (Cx (Complex_conj z)))))
          else if name = ''sqrt'' then
            (case vs of
               [] \<Rightarrow> Some (Inl TypeError)
             | v # _ \<Rightarrow> invoke v (\<lambda>z. Some (Inr (Cx (Complex_sqrt M z)))))
          else if name = ''root'' then
            (case args of
               a0 # a1 # _ \<Rightarrow>
                 (case evaluateAST M a1 env of
                    None \<Rightarrow> None
                  | Some (Inl e) \<Rightarrow> Some (Inl e)
                  | Some (Inr nVal) \<Rightarrow>
                      if js_lt lit_1e_12 (Math_abs (im (operand nVal)))
                      then Some (Inl NonIntegerRootDegree)
                      else invoke (hd vs)
                             (\<lambda>z. Some (returned
                                     (Complex_root M z (Math_round (re (operand nVal)))))))
             | _ \<Rightarrow> Some (Inl TypeError))
          else Some (Inl (UnknownFunction name)))"
| "evaluateAST M (Op op args) env =
     (if op = ''u-'' then
        (case args of
           [] \<Rightarrow> Some (Inl TypeError)
         | a0 # _ \<Rightarrow>
             (case evaluateAST M a0 env of
                None \<Rightarrow> None
              | Some (Inl e) \<Rightarrow> Some (Inl e)
              | Some (Inr v) \<Rightarrow> invoke v (\<lambda>z. Some (Inr (Cx (Complex_neg z))))))
      else
        (case args of
           [] \<Rightarrow> Some (Inl TypeError)
         | a0 # rest \<Rightarrow>
             (case evaluateAST M a0 env of
                None \<Rightarrow> None
              | Some (Inl e) \<Rightarrow> Some (Inl e)
              | Some (Inr a) \<Rightarrow>
                  (case rest of
                     [] \<Rightarrow> Some (Inl TypeError)
                   | a1 # _ \<Rightarrow>
                       (case evaluateAST M a1 env of
                          None \<Rightarrow> None
                        | Some (Inl e) \<Rightarrow> Some (Inl e)
                        | Some (Inr b) \<Rightarrow>
                            if op = ''+'' then
                              invoke a (\<lambda>z. Some (Inr (Cx (Complex_add z (operand b)))))
                            else if op = ''-'' then
                              invoke a (\<lambda>z. Some (Inr (Cx (Complex_sub z (operand b)))))
                            else if op = ''*'' then
                              invoke a (\<lambda>z. Some (Inr (Cx (Complex_mul z (operand b)))))
                            else if op = ''/'' then
                              invoke a (\<lambda>z. Some (returned (Complex_div z (operand b))))
                            else if op = ''**'' then
                              invoke a (\<lambda>z. map_option returned (Complex_pow M z (operand b)))
                            else if op = ''^'' then
                              invoke a (\<lambda>z. map_option returned (Complex_pow M z (operand b)))
                            else Some (Inl (UnimplementedOperator op)))))))"
| "evaluate_args M [] env = Some (Inr [])"
| "evaluate_args M (a # as) env =
     (case evaluateAST M a env of
        None \<Rightarrow> None
      | Some (Inl e) \<Rightarrow> Some (Inl e)
      | Some (Inr v) \<Rightarrow>
          (case evaluate_args M as env of
             None \<Rightarrow> None
           | Some (Inl e) \<Rightarrow> Some (Inl e)
           | Some (Inr vs) \<Rightarrow> Some (Inr (v # vs))))"

section \<open>Equality check\<close>

text \<open>
  \<open>Math.random\<close> is the sequence of its successive results, a parameter of the model:
  \<open>rand k\<close> is the result of call number \<open>k\<close>. A trial draws two numbers for every
  variable, in the order of the set.
\<close>

fun draw_env :: "(nat \<Rightarrow> jsnum) \<Rightarrow> nat \<Rightarrow> string list \<Rightarrow> env \<Rightarrow> env \<times> nat" where
  \<comment> \<open>\<open>for (const v of vars) { ...; env[v] = new Complex(re, im) }\<close>, from call number \<open>k\<close>;
      after the assignment \<open>env[v]\<close> reads the value assigned, also for \<open>v = __proto__\<close>,
      where the assignment sets the prototype and the read returns it\<close>
  "draw_env rand k [] env = (env, k)"
| "draw_env rand k (v # vs) env =
     (let x = js_sub (js_mul (rand k) (Fin 10)) (Fin 5);
          y = js_sub (js_mul (rand (k + 1)) (Fin 10)) (Fin 5)
      in draw_env rand (k + 2) vs (env(v \<mapsto> Complex_new x y)))"

definition trial :: "math \<Rightarrow> node \<Rightarrow> node \<Rightarrow> jsnum \<Rightarrow> env \<Rightarrow> bool result" where
  \<comment> \<open>the \<open>try\<close> block of one round: \<open>Some (Inr ok)\<close> with \<open>ok = r1.eq(r2, tol)\<close>, or the
      error it throws\<close>
  "trial M ast1 ast2 tol env =
     (case evaluateAST M ast1 env of
        None \<Rightarrow> None
      | Some (Inl e) \<Rightarrow> Some (Inl e)
      | Some (Inr r1) \<Rightarrow>
          (case evaluateAST M ast2 env of
             None \<Rightarrow> None
           | Some (Inl e) \<Rightarrow> Some (Inl e)
           | Some (Inr r2) \<Rightarrow>
               invoke r1 (\<lambda>z. Some (Inr (Complex_eq z (operand r2) tol)))))"

partial_function (option) trial_loop ::
    "math \<Rightarrow> node \<Rightarrow> node \<Rightarrow> string list \<Rightarrow> jsnum \<Rightarrow> jsnum \<Rightarrow> (nat \<Rightarrow> jsnum)
       \<Rightarrow> jsnum \<Rightarrow> nat \<Rightarrow> (error + bool) option" where
  \<comment> \<open>\<open>for (let t = 0; t < tries; t++)\<close> from the counter \<open>t\<close> and call number \<open>k\<close> of
      \<open>Math.random\<close> on; \<open>None\<close> is the loop that never ends\<close>
  "trial_loop M ast1 ast2 vars tries tol rand t k =
     (if js_lt t tries then
        (case trial M ast1 ast2 tol (fst (draw_env rand k vars Map.empty)) of
           None \<Rightarrow> None
         | Some (Inl e) \<Rightarrow>
             if js_lt (js_sub t (Fin 1)) (Fin 0) then Some (Inl e)
             else trial_loop M ast1 ast2 vars tries tol rand
                    (js_add (js_sub t (Fin 1)) (Fin 1)) (snd (draw_env rand k vars Map.empty))
         | Some (Inr ok) \<Rightarrow>
             if \<not> ok then Some (Inr False)
             else trial_loop M ast1 ast2 vars tries tol rand
                    (js_add t (Fin 1)) (snd (draw_env rand k vars Map.empty)))
      else Some (Inr True))"

definition expressionsEqual ::
    "math \<Rightarrow> (nat \<Rightarrow> jsnum) \<Rightarrow> node \<Rightarrow> node \<Rightarrow> jsnum \<Rightarrow> jsnum \<Rightarrow> (error + bool) option" where
  "expressionsEqual M rand ast1 ast2 tries tol =
     (let vars = fold set_add (collectVars ast2 []) (collectVars ast1 [])
      in trial_loop M ast1 ast2 vars tries tol rand (Fin 0) 0)"

section \<open>Entry points\<close>

definition evaluate_parse :: "math \<Rightarrow> string \<Rightarrow> env \<Rightarrow> jsval result" where
  \<comment> \<open>option 1 of the menu: \<open>evaluateAST(parseToAST(expr), env)\<close>\<close>
  "evaluate_parse M expr env =
     (case parseToAST expr of Inl e \<Rightarrow> Some (Inl e) | Inr ast \<Rightarrow> evaluateAST M ast env)"

definition render_parse :: "string \<Rightarrow> error + string" where
  \<comment> \<open>option 2 of the menu: \<open>astToLisp(parseToAST(expr))\<close>\<close>
  "render_parse expr = (case parseToAST expr of Inl e \<Rightarrow> Inl e | Inr ast \<Rightarrow> Inr (astToLisp ast))"

text \<open>
  A closed example needs a library. The examples below never reach a call of the library
  (each is an instance of a theorem that holds for every library), so the simplest one
  stands in.
\<close>

definition no_Math :: math where
  "no_Math = \<lparr>Math_hypot = (\<lambda>x y. NaN), Math_atan2 = (\<lambda>y x. NaN), Math_pow = (\<lambda>x y. NaN),
     Math_exp = (\<lambda>x. NaN), Math_log = (\<lambda>x. NaN), Math_cos = (\<lambda>x. NaN),
     Math_sin = (\<lambda>x. NaN), Math_sqrt = (\<lambda>x. NaN)\<rparr>"

section \<open>Rounding\<close>

lemma floor_log2_ge1:
  assumes "1 \<le> x"
  shows "2 powi floor_log2 x \<le> x \<and> x < 2 powi (floor_log2 x + 1)"
proof -
  let ?n = "\<lfloor>x\<rfloor>"
  have n: "0 < ?n" using assms by simp
  have b: "2 ^ nat (bitlen ?n - 1) \<le> ?n" "?n < 2 ^ nat (bitlen ?n)"
    using bitlen_bounds [OF n] by auto
  have ge1: "1 \<le> bitlen ?n" using n by (auto simp: bitlen_alt_def)
  have e: "floor_log2 x = bitlen ?n - 1" using assms by (simp add: floor_log2_def)
  have "(2::rat) powi (bitlen ?n - 1) = 2 ^ nat (bitlen ?n - 1)"
    using ge1 by (simp add: power_int_def)
  also have "\<dots> = of_int (2 ^ nat (bitlen ?n - 1))" by simp
  also have "\<dots> \<le> of_int ?n" using b(1) by (simp only: of_int_le_iff)
  also have "\<dots> \<le> x" by simp
  finally have lo: "2 powi floor_log2 x \<le> x" by (simp add: e)
  have "?n + 1 \<le> 2 ^ nat (bitlen ?n)" using b(2) by simp
  have "x < of_int (?n + 1)" by linarith
  also have "\<dots> \<le> of_int (2 ^ nat (bitlen ?n))"
    using \<open>?n + 1 \<le> 2 ^ nat (bitlen ?n)\<close> by (simp only: of_int_le_iff)
  also have "\<dots> = (2::rat) powi (bitlen ?n)"
    using ge1 by (simp add: power_int_def)
  finally have hi: "x < 2 powi (floor_log2 x + 1)" by (simp add: e)
  from lo hi show ?thesis ..
qed

lemma floor_log2_lt1:
  assumes "0 < x" "x < 1"
  shows "2 powi floor_log2 x \<le> x \<and> x < 2 powi (floor_log2 x + 1)"
proof -
  let ?y = "1 / x"
  let ?m = "\<lceil>?y\<rceil> - 1"
  have y: "1 < ?y" using assms by simp
  have m: "0 < ?m" using y by linarith
  have b: "2 ^ nat (bitlen ?m - 1) \<le> ?m" "?m < 2 ^ nat (bitlen ?m)"
    using bitlen_bounds [OF m] by auto
  have ge1: "1 \<le> bitlen ?m" using m by (auto simp: bitlen_alt_def)
  have e: "floor_log2 x = - bitlen ?m" using assms by (simp add: floor_log2_def)
  have my: "of_int ?m < ?y" "?y \<le> of_int (?m + 1)" by linarith+
  have "?y \<le> of_int (?m + 1)" by fact
  also have "\<dots> \<le> of_int (2 ^ nat (bitlen ?m))"
    using b(2) by (simp only: of_int_le_iff)
  also have "\<dots> = (2::rat) ^ nat (bitlen ?m)" by simp
  finally have up: "?y \<le> 2 ^ nat (bitlen ?m)" .
  have "(2::rat) ^ nat (bitlen ?m - 1) = of_int (2 ^ nat (bitlen ?m - 1))" by simp
  also have "\<dots> \<le> of_int ?m" using b(1) by (simp only: of_int_le_iff)
  also have "\<dots> < ?y" by fact
  finally have dn: "2 ^ nat (bitlen ?m - 1) < ?y" .
  have p1: "(2::rat) powi (- bitlen ?m) = 1 / 2 ^ nat (bitlen ?m)"
    using ge1 by (simp add: power_int_def field_simps)
  have p2: "(2::rat) powi (- bitlen ?m + 1) = 1 / 2 ^ nat (bitlen ?m - 1)"
    using ge1 by (simp add: power_int_def field_simps nat_diff_distrib)
  have lo: "2 powi floor_log2 x \<le> x"
    unfolding e p1 using up assms(1) by (simp add: field_simps)
  have hi: "x < 2 powi (floor_log2 x + 1)"
    unfolding e p2 using dn assms(1) by (simp add: field_simps)
  from lo hi show ?thesis ..
qed

lemma floor_log2_bounds:
  "0 < x \<Longrightarrow> 2 powi floor_log2 x \<le> x \<and> x < 2 powi (floor_log2 x + 1)"
  using floor_log2_ge1 [of x] floor_log2_lt1 [of x] by (cases "1 \<le> x") auto

lemma round_half_even_of_int: "round_half_even (of_int j) = j"
  by (simp add: round_half_even_def)

lemma rnd_not_NaN: "rnd x \<noteq> NaN"
  by (simp add: rnd_def Let_def)

lemma rnd_0: "rnd 0 = Fin 0"
  by (simp add: rnd_def)

lemma rnd_of_int:
  assumes "\<bar>k\<bar> \<le> 2 ^ 53"
  shows "rnd (of_int k) = Fin (of_int k)"
proof (cases "k = 0")
  case True
  then show ?thesis by (simp add: rnd_def)
next
  case False
  define x :: rat where "x = of_int k"
  define e where "e = floor_log2 \<bar>x\<bar>"
  have a1: "1 \<le> \<bar>x\<bar>" using False by (simp add: x_def flip: of_int_abs)
  have a53: "\<bar>x\<bar> \<le> 2 ^ 53"
  proof -
    have "\<bar>x\<bar> = of_int \<bar>k\<bar>" by (simp add: x_def)
    also have "\<dots> \<le> of_int (2 ^ 53)" using assms by (simp only: of_int_le_iff)
    finally show ?thesis by simp
  qed
  have bnd: "2 powi e \<le> \<bar>x\<bar>" "\<bar>x\<bar> < 2 powi (e + 1)"
    using floor_log2_bounds [of "\<bar>x\<bar>"] a1 by (auto simp: e_def)
  have e0: "0 \<le> e"
  proof (rule ccontr)
    assume "\<not> 0 \<le> e"
    then have "e + 1 \<le> 0" by simp
    then have "(2::rat) powi (e + 1) \<le> 2 powi 0" by (intro power_int_increasing) auto
    with bnd(2) a1 show False by simp
  qed
  have e53: "e \<le> 53"
  proof (rule ccontr)
    assume "\<not> e \<le> 53"
    then have "54 \<le> e" by simp
    then have "(2::rat) powi 54 \<le> 2 powi e" by (intro power_int_increasing) auto
    with bnd(1) a53 show False by simp
  qed
  define ulp :: rat where "ulp = 2 powi (e - 52)"
  have ulp0: "ulp \<noteq> 0" by (simp add: ulp_def)
  have "\<exists>j. x / ulp = of_int j"
  proof (cases "e \<le> 52")
    case True
    then have "ulp = 1 / 2 ^ nat (52 - e)"
      by (simp add: ulp_def power_int_def field_simps)
    then have "x / ulp = of_int (k * 2 ^ nat (52 - e))" by (simp add: x_def)
    then show ?thesis ..
  next
    case False
    with e53 have e: "e = 53" by simp
    then have u: "ulp = 2" by (simp add: ulp_def)
    have "\<bar>x\<bar> = 2 ^ 53" using bnd(1) a53 by (simp add: e)
    then have "\<bar>k\<bar> = 2 ^ 53" 
      by (metis x_def of_int_abs of_int_eq_iff of_int_numeral of_int_power)
    then have "k = 2 ^ 53 \<or> k = - (2 ^ 53)" by linarith
    then have "x / ulp = of_int (2 ^ 52) \<or> x / ulp = of_int (- (2 ^ 52))"
      unfolding u x_def by auto
    then have "\<exists>j. x / ulp = of_int j" by blast
    then show ?thesis .
  qed
  then obtain j where j: "x / ulp = of_int j" ..
  then have r: "of_int (round_half_even (x / ulp)) * ulp = x"
    using ulp0 by (simp add: round_half_even_of_int field_simps)
  have lt: "\<bar>x\<bar> < 2 ^ 1024" using a53 by (rule order_le_less_trans) simp
  have emax: "max (floor_log2 \<bar>x\<bar>) (- 1022) = e" using e0 by (simp add: e_def)
  have "x \<noteq> 0" using a1 by auto
  then show ?thesis
    unfolding x_def [symmetric] rnd_def emax Let_def ulp_def [symmetric] r
    using lt by auto
qed

lemma rnd_numeral:
  "numeral w \<le> (2 ^ 53 :: int) \<Longrightarrow> rnd (numeral w) = Fin (numeral w)"
  using rnd_of_int [of "numeral w"] by simp

lemma rnd_neg_numeral:
  "numeral w \<le> (2 ^ 53 :: int) \<Longrightarrow> rnd (- numeral w) = Fin (- numeral w)"
  using rnd_of_int [of "- numeral w"] by simp

lemma rnd_1: "rnd 1 = Fin 1"
  using rnd_of_int [of 1] by simp

lemma rnd_neg_1: "rnd (- 1) = Fin (- 1)"
  using rnd_of_int [of "- 1"] by simp

lemma round_half_even_ge: "\<lfloor>x\<rfloor> \<le> round_half_even x"
  by (simp add: round_half_even_def Let_def)

lemma rnd_normal_pos:
  assumes "2 powi (- 1022) \<le> x"
  shows "rnd x = PInf \<or> (\<exists>q. rnd x = Fin q \<and> 0 < q)"
proof -
  have x0: "0 < x" using assms by (rule less_le_trans [rotated]) simp
  define e where "e = floor_log2 \<bar>x\<bar>"
  have bnd: "2 powi e \<le> x" "x < 2 powi (e + 1)"
    using floor_log2_bounds [of x] x0 by (auto simp: e_def)
  have e: "- 1022 \<le> e"
  proof (rule ccontr)
    assume "\<not> - 1022 \<le> e"
    then have "e + 1 \<le> - 1022" by simp
    then have "(2::rat) powi (e + 1) \<le> 2 powi (- 1022)" by (intro power_int_increasing) auto
    with bnd(2) assms show False by simp
  qed
  define ulp :: rat where "ulp = 2 powi (e - 52)"
  have ulp0: "0 < ulp" by (simp add: ulp_def)
  have "1 \<le> (2::rat) powi 52" by simp
  also have "\<dots> = 2 powi e / ulp" by (simp add: ulp_def power_int_diff)
  also have "\<dots> \<le> x / ulp" using bnd(1) ulp0 by (simp add: divide_right_mono)
  finally have "1 \<le> x / ulp" .
  then have "1 \<le> \<lfloor>x / ulp\<rfloor>" by simp
  then have "1 \<le> round_half_even (x / ulp)" using round_half_even_ge [of "x / ulp"] by linarith
  then have r: "0 < of_int (round_half_even (x / ulp)) * ulp" using ulp0 by simp
  have emax: "max (floor_log2 \<bar>x\<bar>) (- 1022) = e" using e by (simp add: e_def)
  have "x \<noteq> 0" using x0 by simp
  then show ?thesis
    unfolding rnd_def emax Let_def ulp_def [symmetric] using r by auto
qed

lemma rnd_overflow:
  assumes "2 ^ 1024 \<le> x"
  shows "rnd x = PInf"
proof -
  have x0: "0 < x" using assms by (rule less_le_trans [rotated]) simp
  define e where "e = floor_log2 \<bar>x\<bar>"
  have bnd: "2 powi e \<le> x" "x < 2 powi (e + 1)"
    using floor_log2_bounds [of x] x0 by (auto simp: e_def)
  have e: "1024 \<le> e"
  proof (rule ccontr)
    assume "\<not> 1024 \<le> e"
    then have "e + 1 \<le> 1024" by simp
    then have "(2::rat) powi (e + 1) \<le> 2 powi 1024" by (intro power_int_increasing) auto
    with bnd(2) assms show False by simp
  qed
  define ulp :: rat where "ulp = 2 powi (e - 52)"
  have ulp0: "0 < ulp" by (simp add: ulp_def)
  have "of_int (2 ^ 52) = (2::rat) powi 52" by simp
  also have "\<dots> = 2 powi e / ulp" by (simp add: ulp_def power_int_diff)
  also have "\<dots> \<le> x / ulp" using bnd(1) ulp0 by (simp add: divide_right_mono)
  finally have "of_int (2 ^ 52) \<le> x / ulp" .
  then have "2 ^ 52 \<le> \<lfloor>x / ulp\<rfloor>" by (simp only: le_floor_iff)
  then have "2 ^ 52 \<le> round_half_even (x / ulp)" using round_half_even_ge [of "x / ulp"] by linarith
  then have "(of_int (2 ^ 52) :: rat) \<le> of_int (round_half_even (x / ulp))"
    by (simp only: of_int_le_iff)
  then have "of_int (2 ^ 52) * ulp \<le> of_int (round_half_even (x / ulp)) * ulp"
    using ulp0 by (simp only: mult_le_cancel_right) simp
  moreover have "of_int (2 ^ 52) * ulp = 2 powi e"
    by (simp add: ulp_def power_int_diff)
  moreover have "(2::rat) ^ 1024 \<le> 2 powi e"
  proof -
    have "(2::rat) powi 1024 \<le> 2 powi e" using e by (intro power_int_increasing) auto
    then show ?thesis by simp
  qed
  ultimately have r: "2 ^ 1024 \<le> of_int (round_half_even (x / ulp)) * ulp" by linarith
  have emax: "max (floor_log2 \<bar>x\<bar>) (- 1022) = e" using e by (simp add: e_def)
  have "x \<noteq> 0" using x0 by simp
  then show ?thesis
    unfolding rnd_def emax Let_def ulp_def [symmetric] using r by auto
qed

lemma lit_1e_14_pos: "js_lt (Fin 0) lit_1e_14"
proof -
  have "(2::rat) powi (- 1022) \<le> 1 / 10 ^ 14"
  proof -
    have "(2::rat) powi (- 1022) \<le> 2 powi (- 47)" by (intro power_int_increasing) auto
    also have "\<dots> \<le> 1 / 10 ^ 14" by (simp add: power_int_minus field_simps)
    finally show ?thesis .
  qed
  from rnd_normal_pos [OF this] show ?thesis by (auto simp: lit_1e_14_def)
qed

section \<open>Evaluating concrete expressions\<close>

lemmas cls_defs = is_digit_def is_space_def is_word_def is_ident_start_def is_punct_def char_range_def

lemmas num_defs = Number_def trim_def non_decimal_def unsigned_decimal_def exponent_part_def
  digits_value_def digit_value_def

lemmas lit_defs = parseComplexLiteral_def num_defs cls_defs Let_def Complex_new_def or_zero_def

lemmas cx_defs = Complex_add_def Complex_sub_def Complex_mul_def Complex_neg_def Complex_conj_def
  Complex_new_def or_zero_def js_sub_def

lemma literal_0: "parseComplexLiteral ''0'' = Inr \<lparr>re = Fin 0, im = Fin 0\<rparr>"
  by (simp add: lit_defs rnd_0)

lemma literal_1: "parseComplexLiteral ''1'' = Inr \<lparr>re = Fin 1, im = Fin 0\<rparr>"
  by (simp add: lit_defs rnd_1)

lemma literal_2: "parseComplexLiteral ''2'' = Inr \<lparr>re = Fin 2, im = Fin 0\<rparr>"
  by (simp add: lit_defs rnd_numeral)

lemma literal_3: "parseComplexLiteral ''3'' = Inr \<lparr>re = Fin 3, im = Fin 0\<rparr>"
  by (simp add: lit_defs rnd_numeral)

lemma literal_4: "parseComplexLiteral ''4'' = Inr \<lparr>re = Fin 4, im = Fin 0\<rparr>"
  by (simp add: lit_defs rnd_numeral)

lemmas literals = literal_0 literal_1 literal_2 literal_3 literal_4

lemma js_eq_Fin_0: "js_eq d (Fin 0) = (d = Fin 0)"
  by (auto simp: js_eq_def)

section \<open>Division\<close>

lemma parse_1_div_0: "parseToAST ''1/0'' = Inr (Op ''/'' [Literal ''1'', Literal ''0''])"
  by code_simp

text \<open>
  Claim C8. \<open>div(a, b)\<close> throws the division-by-zero error exactly when the denominator it
  computes, \<open>b.re*b.re + b.im*b.im\<close>, is the number zero: the comparison has no tolerance.
  Otherwise it returns the quotient by the usual formula,
  \<open>((a.re*b.re + a.im*b.im)/denom, (a.im*b.re - a.re*b.im)/denom)\<close>. Evaluating \<open>1/0\<close> in
  the empty environment throws the error. (The products and the sum are those of the
  numbers: the denominator is also zero when both squares underflow.)
\<close>

theorem Complex_div_raises_iff:
  "((Complex_div a b = Inl DivisionByZero) = (Complex_denom b = Fin 0))
   \<and> Complex_div a b =
       (if Complex_denom b = Fin 0 then Inl DivisionByZero
        else Inr (Complex_new
               (js_div (js_add (js_mul (re a) (re b)) (js_mul (im a) (im b))) (Complex_denom b))
               (js_div (js_sub (js_mul (im a) (re b)) (js_mul (re a) (im b))) (Complex_denom b))))
   \<and> Complex_denom b = js_add (js_mul (re b) (re b)) (js_mul (im b) (im b))
   \<and> evaluate_parse M ''1/0'' Map.empty = Some (Inl DivisionByZero)"
proof -
  have "evaluateAST M (Op ''/'' [Literal ''1'', Literal ''0'']) Map.empty = Some (Inl DivisionByZero)"
    by (simp add: literal_0 literal_1 Complex_div_def Complex_denom_def js_eq_Fin_0 rnd_0)
  then show ?thesis
    by (simp add: Complex_div_def js_eq_Fin_0 Let_def parse_1_div_0 evaluate_parse_def)
      (simp add: Complex_denom_def)
qed

section \<open>Precedence and associativity\<close>

lemma parse_prec1:
  "parseToAST ''2+3*4'' = Inr (Op ''+'' [Literal ''2'', Op ''*'' [Literal ''3'', Literal ''4'']])"
  by code_simp

lemma parse_prec2:
  "parseToAST ''(2+3)*4'' = Inr (Op ''*'' [Op ''+'' [Literal ''2'', Literal ''3''], Literal ''4''])"
  by code_simp

lemma parse_prec3:
  "parseToAST ''2**3**2'' = Inr (Op ''**'' [Literal ''2'', Op ''**'' [Literal ''3'', Literal ''2'']])"
  by code_simp

lemma eval_prec1:
  "evaluateAST M (Op ''+'' [Literal ''2'', Op ''*'' [Literal ''3'', Literal ''4'']]) Map.empty
     = Some (Inr (Cx \<lparr>re = Fin 14, im = Fin 0\<rparr>))"
  by (simp add: literals cx_defs rnd_numeral rnd_0)

lemma eval_prec2:
  "evaluateAST M (Op ''*'' [Op ''+'' [Literal ''2'', Literal ''3''], Literal ''4'']) Map.empty
     = Some (Inr (Cx \<lparr>re = Fin 20, im = Fin 0\<rparr>))"
  by (simp add: literals cx_defs rnd_numeral rnd_0)

lemma pow_3_2:
  "Complex_pow M \<lparr>re = Fin 3, im = Fin 0\<rparr> \<lparr>re = Fin 2, im = Fin 0\<rparr>
     = Some (Inr \<lparr>re = Fin 9, im = Fin 0\<rparr>)"
  apply (simp add: Complex_pow_def lit_1e_14_pos js_eq_Fin_0 Let_def)
  apply (simp add: pow_loop.simps rnd_1 rnd_numeral)
  apply (simp add: cx_defs rnd_numeral rnd_0 rnd_1)
  done

lemma pow_2_9:
  "Complex_pow M \<lparr>re = Fin 2, im = Fin 0\<rparr> \<lparr>re = Fin 9, im = Fin 0\<rparr>
     = Some (Inr \<lparr>re = Fin 512, im = Fin 0\<rparr>)"
  apply (simp add: Complex_pow_def lit_1e_14_pos js_eq_Fin_0 Let_def)
  apply (simp add: pow_loop.simps rnd_1 rnd_numeral)
  apply (simp add: cx_defs rnd_numeral rnd_0 rnd_1)
  done

lemma eval_prec3:
  "evaluateAST M (Op ''**'' [Literal ''2'', Op ''**'' [Literal ''3'', Literal ''2'']]) Map.empty
     = Some (Inr (Cx \<lparr>re = Fin 512, im = Fin 0\<rparr>))"
  by (simp add: literals pow_3_2 pow_2_9)

lemma parse_prec4:
  "parseToAST ''2*3+4'' = Inr (Op ''+'' [Op ''*'' [Literal ''2'', Literal ''3''], Literal ''4''])"
  by code_simp

lemma parse_prec5:
  "parseToAST ''2-3-4'' = Inr (Op ''-'' [Op ''-'' [Literal ''2'', Literal ''3''], Literal ''4''])"
  by code_simp

lemma parse_prec6:
  "parseToAST ''8/4/2'' = Inr (Op ''/'' [Op ''/'' [Literal ''8'', Literal ''4''], Literal ''2''])"
  by code_simp

lemma literal_8: "parseComplexLiteral ''8'' = Inr \<lparr>re = Fin 8, im = Fin 0\<rparr>"
  by (simp add: lit_defs rnd_numeral)

lemma eval_prec4:
  "evaluateAST M (Op ''+'' [Op ''*'' [Literal ''2'', Literal ''3''], Literal ''4'']) Map.empty
     = Some (Inr (Cx \<lparr>re = Fin 10, im = Fin 0\<rparr>))"
  by (simp add: literals cx_defs rnd_numeral rnd_0)

lemma eval_prec5:
  "evaluateAST M (Op ''-'' [Op ''-'' [Literal ''2'', Literal ''3''], Literal ''4'']) Map.empty
     = Some (Inr (Cx \<lparr>re = Fin (- 5), im = Fin 0\<rparr>))"
  by (simp add: literals cx_defs rnd_numeral rnd_neg_numeral rnd_neg_1 rnd_0)

lemma div_8_4:
  "Complex_div \<lparr>re = Fin 8, im = Fin 0\<rparr> \<lparr>re = Fin 4, im = Fin 0\<rparr>
     = Inr \<lparr>re = Fin 2, im = Fin 0\<rparr>"
  apply (simp add: Complex_div_def Complex_denom_def Let_def rnd_numeral rnd_0 js_eq_Fin_0)
  apply (simp add: cx_defs rnd_numeral rnd_0 rnd_1)
  done

lemma div_2_2:
  "Complex_div \<lparr>re = Fin 2, im = Fin 0\<rparr> \<lparr>re = Fin 2, im = Fin 0\<rparr>
     = Inr \<lparr>re = Fin 1, im = Fin 0\<rparr>"
  apply (simp add: Complex_div_def Complex_denom_def Let_def rnd_numeral rnd_0 js_eq_Fin_0)
  apply (simp add: cx_defs rnd_numeral rnd_0 rnd_1)
  done

lemma eval_prec6:
  "evaluateAST M (Op ''/'' [Op ''/'' [Literal ''8'', Literal ''4''], Literal ''2'']) Map.empty
     = Some (Inr (Cx \<lparr>re = Fin 1, im = Fin 0\<rparr>))"
  by (simp add: literals literal_8 div_8_4 div_2_2)

text \<open>
  The rule for two operators in a row: in \<open>a op1 b op2 c\<close> the operator \<open>op1\<close> is on top
  of the stack when \<open>op2\<close> is read. The loop of the parser pops it, which groups
  \<open>(a op1 b) op2 c\<close>, when \<open>op2\<close> is left-associative with a precedence not above that of
  \<open>op1\<close>, or right-associative with a precedence below it; otherwise \<open>op1\<close> stays and the
  tree is \<open>a op1 (b op2 c)\<close>. In the test \<open>o1\<close> is the operator read and \<open>o2\<close> the one on
  the stack, as in the source.
\<close>

definition binary_operators :: "string list" where
  "binary_operators = [''+'', ''-'', ''*'', ''/'', ''**'', ''^'']"

definition grouping :: "string \<Rightarrow> string \<Rightarrow> node" where
  "grouping op1 op2 =
     (case (OPERATORS op2, OPERATORS op1) of
        (Some o1, Some o2) \<Rightarrow>
          if (assoc o1 = ''L'' \<and> prec o1 \<le> prec o2) \<or> (assoc o1 = ''R'' \<and> prec o1 < prec o2)
          then Op op2 [Op op1 [Var ''a'', Var ''b''], Var ''c'']
          else Op op1 [Var ''a'', Op op2 [Var ''b'', Var ''c'']]
      | _ \<Rightarrow> Var ''a'')"

lemma parse_operator_pairs:
  "list_all (\<lambda>op1. list_all (\<lambda>op2.
       parseToAST (''a'' @ op1 @ ''b'' @ op2 @ ''c'') = Inr (grouping op1 op2))
     binary_operators) binary_operators"
  by code_simp

lemma operator_table:
  "map (\<lambda>s. map_option (\<lambda>i. (prec i, assoc i, arity i)) (OPERATORS s)) binary_operators
     = [Some (2, ''L'', 2), Some (2, ''L'', 2), Some (3, ''L'', 2), Some (3, ''L'', 2),
        Some (5, ''R'', 2), Some (5, ''R'', 2)]"
  by (simp add: binary_operators_def OPERATORS_def)

text \<open>
  Claim C6. With the empty environment, \<open>2+3*4\<close> evaluates to 14, \<open>(2+3)*4\<close> to 20 and
  \<open>2**3**2\<close> to 512, not 64: the power operator is right-associative, the parser builds
  \<open>2 ** (3 ** 2)\<close>. In these three no operator is popped by the loop of the parser; it is
  in \<open>2*3+4\<close>, which evaluates to 10 (the product is popped when \<open>+\<close> is read), and in
  \<open>2-3-4\<close> and \<open>8/4/2\<close>, which evaluate to -5 and 1 (an operator of the same precedence
  is popped: subtraction and division are left-associative). For every pair of binary
  operators, \<open>a op1 b op2 c\<close> parses to the tree that the precedences and associativities
  of the table prescribe: \<open>+\<close> and \<open>-\<close> have precedence 2, \<open>*\<close> and \<open>/\<close> 3, all four
  left-associative; \<open>**\<close> and \<open>^\<close> have precedence 5 and are right-associative.
\<close>

theorem precedence_and_associativity:
  "evaluate_parse M ''2+3*4'' Map.empty = Some (Inr (Cx \<lparr>re = Fin 14, im = Fin 0\<rparr>))
   \<and> evaluate_parse M ''(2+3)*4'' Map.empty = Some (Inr (Cx \<lparr>re = Fin 20, im = Fin 0\<rparr>))
   \<and> evaluate_parse M ''2**3**2'' Map.empty = Some (Inr (Cx \<lparr>re = Fin 512, im = Fin 0\<rparr>))
   \<and> evaluate_parse M ''2**3**2'' Map.empty \<noteq> Some (Inr (Cx \<lparr>re = Fin 64, im = Fin 0\<rparr>))
   \<and> parseToAST ''2**3**2'' = Inr (Op ''**'' [Literal ''2'', Op ''**'' [Literal ''3'', Literal ''2'']])
   \<and> evaluate_parse M ''2*3+4'' Map.empty = Some (Inr (Cx \<lparr>re = Fin 10, im = Fin 0\<rparr>))
   \<and> evaluate_parse M ''2-3-4'' Map.empty = Some (Inr (Cx \<lparr>re = Fin (- 5), im = Fin 0\<rparr>))
   \<and> evaluate_parse M ''8/4/2'' Map.empty = Some (Inr (Cx \<lparr>re = Fin 1, im = Fin 0\<rparr>))
   \<and> parseToAST ''2*3+4'' = Inr (Op ''+'' [Op ''*'' [Literal ''2'', Literal ''3''], Literal ''4''])
   \<and> parseToAST ''2-3-4'' = Inr (Op ''-'' [Op ''-'' [Literal ''2'', Literal ''3''], Literal ''4''])
   \<and> parseToAST ''8/4/2'' = Inr (Op ''/'' [Op ''/'' [Literal ''8'', Literal ''4''], Literal ''2''])
   \<and> list_all (\<lambda>op1. list_all (\<lambda>op2.
          parseToAST (''a'' @ op1 @ ''b'' @ op2 @ ''c'') = Inr (grouping op1 op2))
        binary_operators) binary_operators
   \<and> map (\<lambda>s. map_option (\<lambda>i. (prec i, assoc i, arity i)) (OPERATORS s)) binary_operators
        = [Some (2, ''L'', 2), Some (2, ''L'', 2), Some (3, ''L'', 2), Some (3, ''L'', 2),
           Some (5, ''R'', 2), Some (5, ''R'', 2)]"
  using parse_operator_pairs operator_table
  by (simp only: evaluate_parse_def parse_prec1 parse_prec2 parse_prec3 parse_prec4 parse_prec5
        parse_prec6 eval_prec1 eval_prec2 eval_prec3 eval_prec4 eval_prec5 eval_prec6 sum.case)
     simp

section \<open>Unary minus\<close>












section \<open>Printer\<close>

lemma parse_render_example:
  "parseToAST ''(a+b)*conj(c)''
     = Inr (Op ''*'' [Op ''+'' [Var ''a'', Var ''b''], Call ''conj'' [Var ''c'']])"
  by code_simp

lemma join_space_single: "join_space [x] = x"
  by simp

text \<open>
  Claim C9. \<open>astToLisp\<close> is a function of the node alone, defined on every node: a leaf
  renders as its text, an operator or a call as \<open>(name arg1 arg2 ...)\<close>, the name and the
  rendered arguments separated by single spaces, whatever the number of arguments.
  Rendering the tree of \<open>(a+b)*conj(c)\<close> gives \<open>(* (+ a b) (conj c))\<close>.
\<close>

theorem astToLisp_prefix_form:
  "astToLisp (Literal v) = v
   \<and> astToLisp (Var x) = x
   \<and> astToLisp (Op name args) = ''('' @ name @ '' '' @ join_space (map astToLisp args) @ '')''
   \<and> astToLisp (Call name args) = ''('' @ name @ '' '' @ join_space (map astToLisp args) @ '')''
   \<and> join_space [] = ''''
   \<and> join_space (s # t # ts) = s @ '' '' @ join_space (t # ts)
   \<and> join_space [s] = s
   \<and> render_parse ''(a+b)*conj(c)'' = Inr ''(* (+ a b) (conj c))''"
proof -
  have "astToLisp (Op name args) = ''('' @ name @ '' '' @ join_space (map astToLisp args) @ '')''"
    by (cases args) (simp_all split: list.splits)
  moreover have "render_parse ''(a+b)*conj(c)'' = Inr ''(* (+ a b) (conj c))''"
    by (simp add: render_parse_def parse_render_example)
  ultimately show ?thesis by simp
qed

section \<open>The bare token i\<close>

lemma rx_test_lang:
  assumes "rx_test r s"
  shows "s \<in> rx_lang r"
proof -
  from assms obtain x where "rx_match r s (\<lambda>rest. if rest = [] then Some () else None) = Some x"
    by (auto simp: rx_test_def)
  from rx_match_sound [OF this] obtain pre rest where
    "s = pre @ rest" "pre \<in> rx_lang r" "(if rest = [] then Some () else None) = Some x"
    by blast
  then show ?thesis by (cases "rest = []") auto
qed

fun rx_holds :: "(char \<Rightarrow> bool) \<Rightarrow> rx \<Rightarrow> bool" where
  \<comment> \<open>a sufficient condition for every word of \<open>r\<close> to hold a character of the class \<open>q\<close>\<close>
  "rx_holds q (Chr p) = (\<forall>c. p c \<longrightarrow> q c)"
| "rx_holds q (Star p) = False"
| "rx_holds q (Opt r) = False"
| "rx_holds q (Seq r1 r2) = (rx_holds q r1 \<or> rx_holds q r2)"
| "rx_holds q (Alt r1 r2) = (rx_holds q r1 \<and> rx_holds q r2)"

lemma rx_lang_holds: "rx_holds q r \<Longrightarrow> w \<in> rx_lang r \<Longrightarrow> \<exists>c\<in>set w. q c"
proof (induction r arbitrary: w)
  case (Seq r1 r2)
  from Seq.prems(2) obtain u v where w: "w = u @ v" "u \<in> rx_lang r1" "v \<in> rx_lang r2"
    by auto
  from Seq.prems(1) have "rx_holds q r1 \<or> rx_holds q r2" by simp
  then show ?case
  proof
    assume "rx_holds q r1"
    with Seq.IH(1) w(2) obtain c where "c \<in> set u" "q c" by blast
    with w(1) show ?thesis by auto
  next
    assume "rx_holds q r2"
    with Seq.IH(2) w(3) obtain c where "c \<in> set v" "q c" by blast
    with w(1) show ?thesis by auto
  qed
qed auto

lemma number_token_has_digit:
  assumes "isNumberToken t"
  shows "\<exists>c\<in>set t. is_digit c"
proof -
  from assms have "t \<in> rx_lang NUMBER_rx" by (simp add: isNumberToken_def rx_test_lang)
  moreover have "rx_holds is_digit NUMBER_rx" by (simp add: NUMBER_rx_def Plus_def)
  ultimately show ?thesis by (rule rx_lang_holds [rotated])
qed

lemma tokenize_i: "tokenize ''i'' = Inr [''i'']"
  by code_simp

lemma i_not_number: "\<not> isNumberToken ''i''"
  by code_simp

lemma i_identifier: "isIdentifier ''i''"
  by code_simp

lemma parse_i: "parseToAST ''i'' = Inr (Var ''i'')"
  by code_simp

lemma parse_1i: "parseToAST ''1i'' = Inr (Literal ''1i'')"
  by code_simp

lemma parse_2i: "parseToAST ''2i'' = Inr (Literal ''2i'')"
  by code_simp

lemma literal_1i: "parseComplexLiteral ''1i'' = Inr \<lparr>re = Fin 0, im = Fin 1\<rparr>"
  by (simp add: lit_defs rnd_1)

lemma literal_2i: "parseComplexLiteral ''2i'' = Inr \<lparr>re = Fin 0, im = Fin 2\<rparr>"
  by (simp add: lit_defs rnd_numeral)

lemma i_not_inherited: "''i'' \<notin> set Object_prototype"
  by (simp add: Object_prototype_def)

text \<open>
  Claim C10. The string \<open>i\<close> is lexed as one token, which is an identifier and not a
  number: the parser yields the variable \<open>i\<close>, and evaluating it in the empty environment
  throws the unbound-variable error. Every number token holds a digit, so an imaginary
  literal always has digits before its \<open>i\<close>: \<open>1i\<close> evaluates to the imaginary unit, \<open>2i\<close> to
  twice it.
\<close>

theorem bare_i_is_an_identifier:
  "tokenize ''i'' = Inr [''i'']
   \<and> \<not> isNumberToken ''i'' \<and> isIdentifier ''i''
   \<and> parseToAST ''i'' = Inr (Var ''i'')
   \<and> evaluate_parse M ''i'' Map.empty = Some (Inl (UnboundVariable ''i''))
   \<and> evaluate_parse M ''1i'' Map.empty = Some (Inr (Cx \<lparr>re = Fin 0, im = Fin 1\<rparr>))
   \<and> evaluate_parse M ''2i'' Map.empty = Some (Inr (Cx \<lparr>re = Fin 0, im = Fin 2\<rparr>))
   \<and> (isNumberToken t \<longrightarrow> (\<exists>c\<in>set t. is_digit c))"
  using number_token_has_digit [of t]
  by (simp add: tokenize_i i_not_number i_identifier parse_i parse_1i parse_2i evaluate_parse_def
      literal_1i literal_2i i_not_inherited)

theorem bare_i_is_an_identifier_witness:
  "isNumberToken ''1i'' \<and> (\<exists>c\<in>set ''1i''. is_digit c)"
proof -
  have h: "isNumberToken ''1i''" by code_simp
  with bare_i_is_an_identifier [of no_Math "''1i''"] show ?thesis by blast
qed

section \<open>NaN and Infinity\<close>

definition nan_free :: "Complex_js \<Rightarrow> bool" where
  "nan_free z = (re z \<noteq> NaN \<and> im z \<noteq> NaN)"

lemma nan_free_new: "nan_free (Complex_new x y)"
  by (simp add: nan_free_def Complex_new_def or_zero_def)

lemma nan_free_div: "Complex_div a b = Inr z \<Longrightarrow> nan_free z"
  by (auto simp: Complex_div_def Let_def nan_free_new split: if_splits)

lemma nan_free_root: "Complex_root M a n = Inr z \<Longrightarrow> nan_free z"
  by (auto simp: Complex_root_def Let_def nan_free_new split: if_splits)

lemma nan_free_mul: "nan_free (Complex_mul a b)"
  by (simp add: Complex_mul_def nan_free_new)

lemma pow_loop_nan_free:
  assumes "pow_loop i n base res = Some z" "nan_free res"
  shows "nan_free z"
proof -
  have "nan_free res \<longrightarrow> nan_free z"
    by (rule pow_loop.raw_induct
          [where P = "\<lambda>i n base res z. nan_free res \<longrightarrow> nan_free z", OF _ assms(1)])
       (auto simp: nan_free_mul split: if_splits)
  with assms(2) show ?thesis by simp
qed

lemma nan_free_pow: "Complex_pow M a b = Some (Inr z) \<Longrightarrow> nan_free z"
  by (auto simp: Complex_pow_def Let_def nan_free_new split: if_splits option.splits
      dest: pow_loop_nan_free nan_free_div)

lemma nan_free_literal: "parseComplexLiteral v = Inr z \<Longrightarrow> nan_free z"
  by (auto simp: parseComplexLiteral_def Let_def nan_free_new split: if_splits)

lemma returned_Cx: "(returned r = Inr (Cx z)) = (r = Inr z)"
  by (cases r) auto

lemma invoke_Cx: "invoke v method = Some (Inr w) \<Longrightarrow> \<exists>z. v = Cx z \<and> method z = Some (Inr w)"
  by (cases v) auto

lemma nan_free_evaluateAST:
  "evaluateAST M node env = Some (Inr (Cx z)) \<Longrightarrow> (\<And>x z'. env x = Some z' \<Longrightarrow> nan_free z') \<Longrightarrow> nan_free z"
  "evaluate_args M nodes env = Some (Inr zs) \<Longrightarrow> True"
proof (induction M node env and M nodes env arbitrary: z and zs rule: evaluateAST_evaluate_args.induct)
  case (1 M v env)
  then show ?case by (auto simp: returned_Cx dest: nan_free_literal)
next
  case (2 M x env)
  then show ?case by (auto split: option.splits if_splits)
next
  case (3 M name args env)
  from "3.prems"(1) show ?case
    by (auto simp: Complex_conj_def Complex_sqrt_def Let_def nan_free_new returned_Cx
        split: option.splits sum.splits if_splits list.splits
        dest!: invoke_Cx dest: nan_free_root)
next
  case (4 M op args env)
  from "4.prems"(1) show ?case
    by (auto simp: Complex_neg_def Complex_add_def Complex_sub_def nan_free_mul nan_free_new
        returned_Cx
        split: option.splits sum.splits if_splits list.splits
        dest!: invoke_Cx dest: nan_free_div nan_free_pow)
qed auto

definition result_nan_free :: "Complex_js result \<Rightarrow> bool" where
  "result_nan_free r = (case r of Some (Inr z) \<Rightarrow> nan_free z | _ \<Rightarrow> True)"

definition value_nan_free :: "jsval result \<Rightarrow> bool" where
  \<comment> \<open>the same of the result of an evaluation, when it is a Complex\<close>
  "value_nan_free r = (case r of Some (Inr (Cx z)) \<Rightarrow> nan_free z | _ \<Rightarrow> True)"

text \<open>
  Claim C4, as stated, fails: a product of two finite numbers can overflow. The square of
  \<open>2^1000\<close> has an infinite real part, and no error is thrown.
\<close>

theorem overflow_to_Infinity:
  "Complex_mul \<lparr>re = Fin (2 ^ 1000), im = Fin 0\<rparr> \<lparr>re = Fin (2 ^ 1000), im = Fin 0\<rparr>
     = \<lparr>re = PInf, im = Fin 0\<rparr>"
  by (simp add: cx_defs rnd_overflow rnd_0)

text \<open>
  Claim C4, amended. Every Complex value that a core operation returns has both components
  different from NaN: each result is built by the constructor, which replaces NaN by \<open>0\<close>.
  This holds for the arithmetic, for \<open>pow\<close>, \<open>sqrt\<close> and \<open>root\<close> with every library, and
  for the evaluation of every tree in an environment whose values are free of NaN (a
  variable evaluates to the value the environment holds, or to a member of
  \<open>Object.prototype\<close>, which is no Complex value). A component can be infinite.
\<close>

theorem results_are_never_NaN:
  "nan_free (Complex_new x y)
   \<and> nan_free (Complex_add a b) \<and> nan_free (Complex_sub a b) \<and> nan_free (Complex_mul a b)
   \<and> nan_free (Complex_conj a) \<and> nan_free (Complex_neg a) \<and> nan_free (Complex_sqrt M a)
   \<and> result_nan_free (Some (Complex_div a b))
   \<and> result_nan_free (Complex_pow M a b)
   \<and> result_nan_free (Some (Complex_root M a n))
   \<and> ((\<forall>z\<in>ran env. nan_free z) \<longrightarrow> value_nan_free (evaluateAST M node env))"
proof -
  have "value_nan_free (evaluateAST M node env)" if "\<forall>z\<in>ran env. nan_free z"
  proof -
    from that have "\<And>x z'. env x = Some z' \<Longrightarrow> nan_free z'" by (auto simp: ran_def)
    then show ?thesis
      using nan_free_evaluateAST(1) [of M node env]
      by (auto simp: value_nan_free_def split: option.splits sum.splits jsval.splits)
  qed
  moreover have "result_nan_free (Some (Complex_div a b))"
    by (auto simp: result_nan_free_def split: sum.splits dest: nan_free_div)
  moreover have "result_nan_free (Complex_pow M a b)"
    by (auto simp: result_nan_free_def split: option.splits sum.splits dest: nan_free_pow)
  moreover have "result_nan_free (Some (Complex_root M a n))"
    by (auto simp: result_nan_free_def split: sum.splits dest: nan_free_root)
  ultimately show ?thesis
    by (simp add: nan_free_new nan_free_mul Complex_add_def Complex_sub_def Complex_conj_def
        Complex_neg_def Complex_sqrt_def Let_def)
qed

theorem results_are_never_NaN_witness:
  "ran [''a'' \<mapsto> \<lparr>re = Fin 1, im = Fin 0\<rparr>] = {\<lparr>re = Fin 1, im = Fin 0\<rparr>}
   \<and> nan_free \<lparr>re = Fin 1, im = Fin 0\<rparr>
   \<and> evaluateAST no_Math (Op ''*'' [Var ''a'', Literal ''2'']) [''a'' \<mapsto> \<lparr>re = Fin 1, im = Fin 0\<rparr>]
       = Some (Inr (Cx \<lparr>re = Fin 2, im = Fin 0\<rparr>))
   \<and> value_nan_free
        (evaluateAST no_Math (Op ''*'' [Var ''a'', Literal ''2'']) [''a'' \<mapsto> \<lparr>re = Fin 1, im = Fin 0\<rparr>])"
proof -
  have 1: "ran [''a'' \<mapsto> \<lparr>re = Fin 1, im = Fin 0\<rparr>] = {\<lparr>re = Fin 1, im = Fin 0\<rparr>}" by simp
  have 2: "nan_free \<lparr>re = Fin 1, im = Fin 0\<rparr>" by (simp add: nan_free_def)
  have 3: "evaluateAST no_Math (Op ''*'' [Var ''a'', Literal ''2'']) [''a'' \<mapsto> \<lparr>re = Fin 1, im = Fin 0\<rparr>]
       = Some (Inr (Cx \<lparr>re = Fin 2, im = Fin 0\<rparr>))"
    by (simp add: literals cx_defs rnd_numeral rnd_0)
  from 1 2 have "\<forall>z\<in>ran [''a'' \<mapsto> \<lparr>re = Fin 1, im = Fin 0\<rparr>]. nan_free z" by simp
  with results_are_never_NaN
    [of _ _ _ _ no_Math _ "[''a'' \<mapsto> \<lparr>re = Fin 1, im = Fin 0\<rparr>]" "Op ''*'' [Var ''a'', Literal ''2'']"]
  have "value_nan_free
        (evaluateAST no_Math (Op ''*'' [Var ''a'', Literal ''2'']) [''a'' \<mapsto> \<lparr>re = Fin 1, im = Fin 0\<rparr>])"
    by blast
  with 1 2 3 show ?thesis by blast
qed

section \<open>Integer powers\<close>

definition mul_by :: "Complex_js \<Rightarrow> Complex_js \<Rightarrow> Complex_js" where
  \<comment> \<open>the body of the loop of \<open>pow\<close>: \<open>res = res.mul(base)\<close>\<close>
  "mul_by base res = Complex_mul res base"

definition repeated_mul :: "Complex_js \<Rightarrow> nat \<Rightarrow> Complex_js" where
  \<comment> \<open>\<open>res\<close> after \<open>k\<close> rounds of the loop, from \<open>new Complex(1,0)\<close>\<close>
  "repeated_mul base k = (mul_by base ^^ k) (Complex_new (Fin 1) (Fin 0))"

lemma floor_log2_unique:
  assumes "2 powi e \<le> x" "x < 2 powi (e + 1)"
  shows "floor_log2 x = e"
proof -
  have x0: "0 < x" using assms(1) by (rule less_le_trans [rotated]) simp
  define f where "f = floor_log2 x"
  have f: "2 powi f \<le> x" "x < 2 powi (f + 1)"
    using floor_log2_bounds [OF x0] by (simp_all add: f_def)
  have "\<not> f < e"
  proof
    assume "f < e"
    then have "(2::rat) powi (f + 1) \<le> 2 powi e" by (intro power_int_increasing) auto
    with f(2) assms(1) show False by simp
  qed
  moreover have "\<not> e < f"
  proof
    assume "e < f"
    then have "(2::rat) powi (e + 1) \<le> 2 powi f" by (intro power_int_increasing) auto
    with f(1) assms(2) show False by simp
  qed
  ultimately show ?thesis by (simp add: f_def)
qed

lemma rnd_eval:
  assumes "x \<noteq> 0" "floor_log2 \<bar>x\<bar> = e" "- 1022 \<le> e"
    and "round_half_even (x / 2 powi (e - 52)) = k"
    and "of_int k * 2 powi (e - 52) = r" "\<bar>r\<bar> < 2 ^ 1024"
  shows "rnd x = Fin r"
proof -
  have m: "max (floor_log2 \<bar>x\<bar>) (- 1022) = e" using assms(2,3) by simp
  have "\<not> 2 ^ 1024 \<le> r" "\<not> r \<le> - (2 ^ 1024)" using assms(6) by linarith+
  then show ?thesis
    unfolding rnd_def m Let_def assms(4) assms(5) using assms(1) by simp
qed

lemma rnd_2_53_plus_1: "rnd (2 ^ 53 + 1) = Fin (2 ^ 53)"
proof (rule rnd_eval [where e = 53 and k = "2 ^ 52"])
  show "floor_log2 \<bar>2 ^ 53 + 1\<bar> = 53"
    by (rule floor_log2_unique) simp_all
  define y :: rat where "y = (2 ^ 53 + 1) / 2"
  have fl: "\<lfloor>y\<rfloor> = 2 ^ 52"
    by (rule floor_unique) (simp_all add: y_def)
  have "y - of_int \<lfloor>y\<rfloor> = 1 / 2" unfolding fl by (simp add: y_def)
  then have "round_half_even y = 2 ^ 52"
    unfolding round_half_even_def Let_def fl by simp
  then show "round_half_even ((2 ^ 53 + 1) / 2 powi (53 - 52)) = 2 ^ 52"
    by (simp add: y_def)
qed simp_all

lemma rnd_nat_succ:
  assumes "Suc i \<le> 2 ^ 53"
  shows "rnd (of_nat i + 1) = Fin (of_nat i + 1)"
proof -
  from assms have "int (Suc i) \<le> int (2 ^ 53)" by (simp only: of_nat_le_iff)
  then have "\<bar>int (Suc i)\<bar> \<le> 2 ^ 53" by simp
  from rnd_of_int [OF this] have "rnd (of_int (int (Suc i))) = Fin (of_int (int (Suc i)))" .
  moreover have "of_int (int (Suc i)) = (of_nat i + 1 :: rat)" by simp
  ultimately show ?thesis by (simp only:)
qed

lemma pow_loop_counts:
  assumes "i \<le> n" "n \<le> 2 ^ 53"
  shows "pow_loop (Fin (of_nat i)) (Fin (of_nat n)) base res = Some ((mul_by base ^^ (n - i)) res)"
  using assms
proof (induction "n - i" arbitrary: i res)
  case 0
  then have "i = n" by simp
  then show ?case by (subst pow_loop.simps) simp
next
  case (Suc k)
  then have lt: "i < n" and k: "k = n - Suc i" by simp_all
  from lt Suc.prems have "Suc i \<le> 2 ^ 53" by simp
  then have "rnd (of_nat i + 1) = Fin (of_nat i + 1)" by (rule rnd_nat_succ)
  moreover have "(of_nat i + 1 :: rat) = of_nat (Suc i)" by simp
  ultimately have step: "rnd (of_nat i + 1) = Fin (of_nat (Suc i))" by (simp only:)
  have "pow_loop (Fin (of_nat i)) (Fin (of_nat n)) base res
          = pow_loop (Fin (of_nat (Suc i))) (Fin (of_nat n)) base (Complex_mul res base)"
    using lt by (subst pow_loop.simps) (simp add: step del: of_nat_Suc)
  also have "\<dots> = Some ((mul_by base ^^ (n - Suc i)) (Complex_mul res base))"
    using lt Suc.prems by (intro Suc.hyps(1) [OF k]) simp_all
  also have "(mul_by base ^^ (n - Suc i)) (Complex_mul res base) = (mul_by base ^^ (n - i)) res"
  proof -
    have "n - i = Suc (n - Suc i)" using lt by simp
    then show ?thesis by (simp add: funpow_swap1 mul_by_def)
  qed
  finally show ?case .
qed

lemma pow_loop_stuck:
  assumes "js_lt (Fin (2 ^ 53)) n"
  shows "pow_loop (Fin (2 ^ 53)) n base res = None"
proof (rule ccontr)
  assume "pow_loop (Fin (2 ^ 53)) n base res \<noteq> None"
  then obtain z where z: "pow_loop (Fin (2 ^ 53)) n base res = Some z" by blast
  have stay: "js_add (Fin (2 ^ 53)) (Fin 1) = Fin (2 ^ 53)"
    using rnd_2_53_plus_1 by simp
  have "i = Fin (2 ^ 53) \<longrightarrow> n' = n \<longrightarrow> False" if "pow_loop i n' base' res' = Some z'" for i n' base' res' z'
    by (rule pow_loop.raw_induct
          [where P = "\<lambda>i n' base' res' z'. i = Fin (2 ^ 53) \<longrightarrow> n' = n \<longrightarrow> False", OF _ that])
       (use assms stay in \<open>auto split: if_splits\<close>)
  with z show False by blast
qed

lemma pow_loop_diverges:
  assumes "js_lt (Fin (2 ^ 53)) n" "i \<le> 2 ^ 53"
  shows "pow_loop (Fin (of_nat i)) n base res = None"
  using assms(2)
proof (induction "2 ^ 53 - i" arbitrary: i res)
  case 0
  then have "i = 2 ^ 53" by simp
  then have "Fin (of_nat i) = Fin (2 ^ 53)" by simp
  then show ?case using pow_loop_stuck [OF assms(1)] by (simp only:)
next
  case (Suc k)
  then have lt: "i < 2 ^ 53" and k: "k = 2 ^ 53 - Suc i" by simp_all
  then have "Suc i \<le> 2 ^ 53" by simp
  then have "rnd (of_nat i + 1) = Fin (of_nat i + 1)" by (rule rnd_nat_succ)
  moreover have "(of_nat i + 1 :: rat) = of_nat (Suc i)" by simp
  ultimately have step: "rnd (of_nat i + 1) = Fin (of_nat (Suc i))" by (simp only:)
  have "(of_nat i :: rat) < of_nat (2 ^ 53)" using lt by (simp only: of_nat_less_iff)
  then have "(of_nat i :: rat) < 2 ^ 53" by simp
  with assms(1) have c: "js_lt (Fin (of_nat i)) n" by (cases n) simp_all
  have "pow_loop (Fin (of_nat i)) n base res
          = pow_loop (Fin (of_nat (Suc i))) n base (Complex_mul res base)"
    using c by (subst pow_loop.simps) (simp add: step del: of_nat_Suc)
  also have "\<dots> = None"
    using \<open>Suc i \<le> 2 ^ 53\<close> by (intro Suc.hyps(1) [OF k])
  finally show ?case .
qed

lemma repeated_mul_0: "repeated_mul base 0 = Complex_new (Fin 1) (Fin 0)"
  by (simp add: repeated_mul_def)

lemma repeated_mul_Suc: "repeated_mul base (Suc k) = Complex_mul (repeated_mul base k) base"
  by (simp add: repeated_mul_def mul_by_def)

lemma Complex_mul_zero:
  "Complex_mul r \<lparr>re = Fin 0, im = Fin 0\<rparr> = \<lparr>re = Fin 0, im = Fin 0\<rparr>"
  by (cases "re r"; cases "im r") (simp_all add: cx_defs rnd_0)

lemma Complex_div_zero: "Complex_div a \<lparr>re = Fin 0, im = Fin 0\<rparr> = Inl DivisionByZero"
  by (simp add: Complex_div_def Complex_denom_def rnd_0 js_eq_Fin_0)

lemma Complex_pow_integer:
  assumes "js_lt (Math_abs (im b)) lit_1e_14" "re b = Fin (of_int n)" "\<bar>n\<bar> \<le> 2 ^ 53"
  shows "Complex_pow M a b =
           Some (if 0 \<le> n then Inr (repeated_mul (Complex_new (re a) (im a)) (nat n))
                 else Complex_div (Complex_new (Fin 1) (Fin 0))
                        (repeated_mul (Complex_new (re a) (im a)) (nat (- n))))"
proof (cases "n = 0")
  case True
  with assms(1,2) show ?thesis
    by (simp add: Complex_pow_def js_eq_Fin_0 repeated_mul_0)
next
  case False
  define m where "m = nat \<bar>n\<bar>"
  have m: "m \<le> 2 ^ 53"
  proof -
    have "int m \<le> int (2 ^ 53)" using assms(3) by (simp add: m_def)
    then show ?thesis by (simp only: of_nat_le_iff)
  qed
  have abs: "Math_abs (Fin (of_int n)) = Fin (of_nat m)"
    by (simp add: m_def flip: of_int_abs)
  have loop: "pow_loop (Fin 0) (Fin (of_nat m)) base res = Some ((mul_by base ^^ m) res)" for base res
    using pow_loop_counts [of 0 m base res] m by simp
  have nz: "\<not> js_eq (Fin (of_int n)) (Fin 0)" using False by (simp add: js_eq_Fin_0)
  have pos: "js_lt (Fin 0) (Fin (of_int n)) = (0 < n)" by simp
  have int: "Number_isInteger (Fin (of_int n))" by simp
  have eq: "Complex_pow M a b =
      (if \<not> 0 < n
       then Some (Complex_div (Complex_new (Fin 1) (Fin 0))
                   ((mul_by (Complex_new (re a) (im a)) ^^ m) (Complex_new (Fin 1) (Fin 0))))
       else Some (Inr ((mul_by (Complex_new (re a) (im a)) ^^ m) (Complex_new (Fin 1) (Fin 0)))))"
    using assms(1) unfolding Complex_pow_def assms(2) Let_def
    by (simp only: int nz pos abs loop option.case simp_thms if_True if_False)
  show ?thesis
  proof (cases "0 < n")
    case True
    then have "m = nat n" by (simp add: m_def)
    with True eq show ?thesis by (simp add: repeated_mul_def)
  next
    case neg: False
    with False have "n < 0" by simp
    then have "m = nat (- n)" by (simp add: m_def)
    with \<open>n < 0\<close> eq show ?thesis by (simp add: repeated_mul_def)
  qed
qed

text \<open>
  Claim C5, as stated, fails for the integers beyond \<open>2^53\<close>. The counter of the loop is a
  number: at \<open>2^53\<close> the increment \<open>i++\<close> rounds back to \<open>2^53\<close>, the test \<open>i < n\<close> stays
  true, and \<open>pow\<close> never returns. The exponent \<open>2^53 + 2\<close> is an exact integer.
\<close>

theorem integer_power_loop_never_ends:
  "Complex_pow no_Math \<lparr>re = Fin 2, im = Fin 0\<rparr> \<lparr>re = Fin (2 ^ 53 + 2), im = Fin 0\<rparr> = None"
proof -
  have "pow_loop (Fin (of_nat 0)) (Fin (2 ^ 53 + 2)) base res = None" for base res
    by (rule pow_loop_diverges) simp_all
  then have "pow_loop (Fin 0) (Fin (2 ^ 53 + 2)) base res = None" for base res
    by simp
  then show ?thesis
    by (simp add: Complex_pow_def lit_1e_14_pos js_eq_Fin_0 Let_def)
qed

text \<open>
  Claim C5, amended. For every base and every exponent whose imaginary part is below
  \<open>1e-14\<close> in absolute value and whose real part is an integer \<open>n\<close> with \<open>|n| \<le> 2^53\<close>,
  \<open>pow\<close> returns the result of \<open>|n|\<close> rounds of \<open>res = res.mul(base)\<close> from \<open>1\<close> (so \<open>1\<close>
  for \<open>n = 0\<close>); for a negative \<open>n\<close> it returns what \<open>div\<close> gives for \<open>1\<close> and that product,
  and this is the division-by-zero error when the base is zero.
\<close>

theorem integer_power_by_repeated_multiplication:
  assumes "js_lt (Math_abs (im b)) lit_1e_14" "re b = Fin (of_int n)" "\<bar>n\<bar> \<le> 2 ^ 53"
  shows "Complex_pow M a b =
           Some (if 0 \<le> n then Inr (repeated_mul (Complex_new (re a) (im a)) (nat n))
                 else Complex_div (Complex_new (Fin 1) (Fin 0))
                        (repeated_mul (Complex_new (re a) (im a)) (nat (- n))))
         \<and> repeated_mul base 0 = Complex_new (Fin 1) (Fin 0)
         \<and> repeated_mul base (Suc k) = Complex_mul (repeated_mul base k) base
         \<and> (re a = Fin 0 \<and> im a = Fin 0 \<and> n < 0
              \<longrightarrow> Complex_pow M a b = Some (Inl DivisionByZero))"
proof -
  note main = Complex_pow_integer [OF assms, of M a]
  have "Complex_pow M a b = Some (Inl DivisionByZero)" if "re a = Fin 0" "im a = Fin 0" "n < 0"
  proof -
    have base: "Complex_new (re a) (im a) = \<lparr>re = Fin 0, im = Fin 0\<rparr>"
      using that by (simp add: Complex_new_def or_zero_def)
    from that(3) obtain j where j: "nat (- n) = Suc j" by (cases "nat (- n)") auto
    have "repeated_mul \<lparr>re = Fin 0, im = Fin 0\<rparr> (Suc j) = \<lparr>re = Fin 0, im = Fin 0\<rparr>"
      by (simp only: repeated_mul_Suc Complex_mul_zero)
    with main that(3) show ?thesis by (simp add: base j Complex_div_zero)
  qed
  with main show ?thesis by (simp add: repeated_mul_0 repeated_mul_Suc)
qed

theorem integer_power_by_repeated_multiplication_witness:
  "js_lt (Math_abs (Fin 0)) lit_1e_14 \<and> \<bar>- 2 :: int\<bar> \<le> 2 ^ 53 \<and> \<bar>3 :: int\<bar> \<le> 2 ^ 53
   \<and> Complex_pow no_Math \<lparr>re = Fin 0, im = Fin 0\<rparr> \<lparr>re = Fin (- 2), im = Fin 0\<rparr>
       = Some (Inl DivisionByZero)
   \<and> Complex_pow no_Math \<lparr>re = Fin 2, im = Fin 0\<rparr> \<lparr>re = Fin 3, im = Fin 0\<rparr>
       = Some (Inr \<lparr>re = Fin 8, im = Fin 0\<rparr>)"
proof -
  have h1: "js_lt (Math_abs (im \<lparr>re = Fin (- 2), im = Fin 0\<rparr>)) lit_1e_14"
    and h1': "js_lt (Math_abs (im \<lparr>re = Fin 3, im = Fin 0\<rparr>)) lit_1e_14"
    by (simp_all add: lit_1e_14_pos)
  have h2: "re \<lparr>re = Fin (- 2), im = Fin 0\<rparr> = Fin (of_int (- 2))"
    and h2': "re \<lparr>re = Fin 3, im = Fin 0\<rparr> = Fin (of_int 3)" by simp_all
  have h3: "\<bar>- 2 :: int\<bar> \<le> 2 ^ 53" and h3': "\<bar>3 :: int\<bar> \<le> 2 ^ 53" by simp_all
  have "re \<lparr>re = Fin 0, im = Fin 0\<rparr> = Fin 0 \<and> im \<lparr>re = Fin 0, im = Fin 0\<rparr> = Fin 0 \<and> (- 2 :: int) < 0
          \<longrightarrow> Complex_pow no_Math \<lparr>re = Fin 0, im = Fin 0\<rparr> \<lparr>re = Fin (- 2), im = Fin 0\<rparr>
                = Some (Inl DivisionByZero)"
    using integer_power_by_repeated_multiplication
      [OF h1 h2 h3, of no_Math "\<lparr>re = Fin 0, im = Fin 0\<rparr>" "\<lparr>re = Fin 0, im = Fin 0\<rparr>" 0]
    by blast
  then have 1: "Complex_pow no_Math \<lparr>re = Fin 0, im = Fin 0\<rparr> \<lparr>re = Fin (- 2), im = Fin 0\<rparr>
       = Some (Inl DivisionByZero)"
    by simp
  have "Complex_pow no_Math \<lparr>re = Fin 2, im = Fin 0\<rparr> \<lparr>re = Fin 3, im = Fin 0\<rparr>
          = Some (if 0 \<le> (3::int)
                  then Inr (repeated_mul (Complex_new (re \<lparr>re = Fin 2, im = Fin 0\<rparr>)
                                          (im \<lparr>re = Fin 2, im = Fin 0\<rparr>)) (nat 3))
                  else Complex_div (Complex_new (Fin 1) (Fin 0))
                         (repeated_mul (Complex_new (re \<lparr>re = Fin 2, im = Fin 0\<rparr>)
                                         (im \<lparr>re = Fin 2, im = Fin 0\<rparr>)) (nat (- 3))))"
    using integer_power_by_repeated_multiplication
      [OF h1' h2' h3', of no_Math "\<lparr>re = Fin 2, im = Fin 0\<rparr>" "\<lparr>re = Fin 0, im = Fin 0\<rparr>" 0]
    by blast
  moreover have "repeated_mul \<lparr>re = Fin 2, im = Fin 0\<rparr> 3 = \<lparr>re = Fin 8, im = Fin 0\<rparr>"
    unfolding numeral_3_eq_3
    by (simp add: repeated_mul_Suc repeated_mul_0 cx_defs rnd_numeral rnd_0 rnd_1)
  ultimately have 2: "Complex_pow no_Math \<lparr>re = Fin 2, im = Fin 0\<rparr> \<lparr>re = Fin 3, im = Fin 0\<rparr>
       = Some (Inr \<lparr>re = Fin 8, im = Fin 0\<rparr>)"
    by (simp add: Complex_new_def or_zero_def)
  from 1 2 h3 h3' lit_1e_14_pos show ?thesis by simp
qed

section \<open>Error recovery of the equality check\<close>

definition all_vars :: "node \<Rightarrow> node \<Rightarrow> string list" where
  \<comment> \<open>\<open>new Set([...collectVars(ast1), ...collectVars(ast2)])\<close>\<close>
  "all_vars ast1 ast2 = fold set_add (collectVars ast2 []) (collectVars ast1 [])"

definition round_env :: "(nat \<Rightarrow> jsnum) \<Rightarrow> string list \<Rightarrow> nat \<Rightarrow> env" where
  \<comment> \<open>the environment of the round that starts at call number \<open>k\<close> of \<open>Math.random\<close>\<close>
  "round_env rand vars k = fst (draw_env rand k vars Map.empty)"

lemma draw_env_snd: "snd (draw_env rand k vars env) = k + 2 * length vars"
  by (induction vars arbitrary: k env) (simp_all add: Let_def)

lemma lit_1e_7_pos: "js_lt (Fin 0) lit_1e_7"
proof -
  have "(2::rat) powi (- 1022) \<le> 1 / 10 ^ 7"
  proof -
    have "(2::rat) powi (- 1022) \<le> 2 powi (- 24)" by (intro power_int_increasing) auto
    also have "\<dots> \<le> 1 / 10 ^ 7" by (simp add: power_int_minus field_simps)
    finally show ?thesis .
  qed
  from rnd_normal_pos [OF this] show ?thesis by (auto simp: lit_1e_7_def)
qed

lemma trial_loop_first_error:
  assumes "js_lt (Fin 0) tries"
    and "trial M ast1 ast2 tol (round_env rand vars 0) = Some (Inl e)"
  shows "trial_loop M ast1 ast2 vars tries tol rand (Fin 0) 0 = Some (Inl e)"
  using assms
  by (subst trial_loop.simps) (simp add: round_env_def js_sub_def rnd_neg_1)

lemma trial_loop_no_round:
  assumes "\<not> js_lt (Fin 0) tries"
  shows "trial_loop M ast1 ast2 vars tries tol rand (Fin 0) k = Some (Inr True)"
  using assms by (subst trial_loop.simps) simp

lemma counter_back:
  assumes "1 \<le> t" "t \<le> 2 ^ 53"
  shows "\<not> js_lt (js_sub (Fin (of_nat t)) (Fin 1)) (Fin 0)"
    and "js_add (js_sub (Fin (of_nat t)) (Fin 1)) (Fin 1) = Fin (of_nat t)"
proof -
  from assms(2) have "int t \<le> int (2 ^ 53)" by (simp only: of_nat_le_iff)
  then have b: "\<bar>int t - 1\<bar> \<le> 2 ^ 53" "\<bar>int t\<bar> \<le> 2 ^ 53" using assms(1) by simp_all
  have "js_sub (Fin (of_nat t)) (Fin 1) = rnd (of_int (int t - 1))"
    by (simp add: js_sub_def)
  also have "\<dots> = Fin (of_int (int t - 1))" using b(1) by (rule rnd_of_int)
  finally have s: "js_sub (Fin (of_nat t)) (Fin 1) = Fin (of_int (int t - 1))" .
  show "\<not> js_lt (js_sub (Fin (of_nat t)) (Fin 1)) (Fin 0)"
    unfolding s using assms(1) by simp
  have "js_add (Fin (of_int (int t - 1))) (Fin 1) = rnd (of_int (int t))" by simp
  also have "\<dots> = Fin (of_int (int t))" using b(2) by (rule rnd_of_int)
  finally show "js_add (js_sub (Fin (of_nat t)) (Fin 1)) (Fin 1) = Fin (of_nat t)"
    unfolding s by simp
qed

lemma trial_loop_retry:
  assumes "1 \<le> t" "t \<le> 2 ^ 53" "js_lt (Fin (of_nat t)) tries"
    and "trial M ast1 ast2 tol (round_env rand vars k) = Some (Inl e)"
  shows "trial_loop M ast1 ast2 vars tries tol rand (Fin (of_nat t)) k
           = trial_loop M ast1 ast2 vars tries tol rand (Fin (of_nat t)) (k + 2 * length vars)"
  using assms(3,4) counter_back [OF assms(1,2)]
  by (subst trial_loop.simps) (simp add: round_env_def draw_env_snd)

lemma trial_loop_retries:
  assumes "1 \<le> t" "t \<le> 2 ^ 53" "js_lt (Fin (of_nat t)) tries"
    and "\<And>j. j < n \<Longrightarrow>
           \<exists>e. trial M ast1 ast2 tol (round_env rand vars (k + j * (2 * length vars))) = Some (Inl e)"
  shows "trial_loop M ast1 ast2 vars tries tol rand (Fin (of_nat t)) k
           = trial_loop M ast1 ast2 vars tries tol rand (Fin (of_nat t)) (k + n * (2 * length vars))"
  using assms(4)
proof (induction n)
  case 0
  then show ?case by simp
next
  case (Suc n)
  then have "trial_loop M ast1 ast2 vars tries tol rand (Fin (of_nat t)) k
           = trial_loop M ast1 ast2 vars tries tol rand (Fin (of_nat t)) (k + n * (2 * length vars))"
    by simp
  moreover from Suc.prems [of n] obtain e where
    "trial M ast1 ast2 tol (round_env rand vars (k + n * (2 * length vars))) = Some (Inl e)"
    by blast
  from trial_loop_retry [OF assms(1-3) this]
  have "trial_loop M ast1 ast2 vars tries tol rand (Fin (of_nat t)) (k + n * (2 * length vars))
          = trial_loop M ast1 ast2 vars tries tol rand (Fin (of_nat t))
              (k + n * (2 * length vars) + 2 * length vars)" .
  ultimately show ?case by (simp add: algebra_simps)
qed

lemma trial_loop_next:
  assumes "js_lt t tries" "trial M ast1 ast2 tol (round_env rand vars k) = Some (Inr True)"
    and "t' = js_add t (Fin 1)" "k' = k + 2 * length vars"
  shows "trial_loop M ast1 ast2 vars tries tol rand t k
           = trial_loop M ast1 ast2 vars tries tol rand t' k'"
  using assms by (subst trial_loop.simps) (simp add: round_env_def draw_env_snd)

lemma trial_loop_exit:
  assumes "\<not> js_lt t tries"
  shows "trial_loop M ast1 ast2 vars tries tol rand t k = Some (Inr True)"
  using assms by (subst trial_loop.simps) simp

lemma expressionsEqual_loop:
  "expressionsEqual M rand ast1 ast2 tries tol
     = trial_loop M ast1 ast2 (all_vars ast1 ast2) tries tol rand (Fin 0) 0"
  by (simp add: expressionsEqual_def all_vars_def)

definition one_div_zero :: node where
  "one_div_zero = Op ''/'' [Literal ''1'', Literal ''0'']"

definition a_div_a :: node where
  "a_div_a = Op ''/'' [Var ''a'', Var ''a'']"

definition rand_half :: "nat \<Rightarrow> jsnum" where
  \<comment> \<open>every call of \<open>Math.random\<close> returns 0.5\<close>
  "rand_half k = Fin (1 / 2)"

definition rand_retry :: "nat \<Rightarrow> jsnum" where
  \<comment> \<open>calls 0 and 4 return 0, every other call returns 0.5\<close>
  "rand_retry k = (if k = 0 \<or> k = 4 then Fin 0 else Fin (1 / 2))"

lemma trial_one_div_zero:
  "trial M one_div_zero one_div_zero tol env = Some (Inl DivisionByZero)"
  by (simp add: trial_def one_div_zero_def literal_0 literal_1 Complex_div_def Complex_denom_def
      js_eq_Fin_0 rnd_0)

lemma all_vars_one_div_zero: "all_vars one_div_zero one_div_zero = []"
  by (simp add: all_vars_def one_div_zero_def)

lemma all_vars_a_div_a: "all_vars a_div_a a_div_a = [''a'']"
  by (simp add: all_vars_def a_div_a_def set_add_def)

lemma round_env_retry_0:
  "round_env rand_retry [''a''] 0 = [''a'' \<mapsto> \<lparr>re = Fin (- 5), im = Fin 0\<rparr>]"
  by (simp add: round_env_def rand_retry_def Let_def cx_defs rnd_0 rnd_numeral rnd_neg_numeral)

lemma round_env_retry_2:
  "round_env rand_retry [''a''] 2 = [''a'' \<mapsto> \<lparr>re = Fin 0, im = Fin 0\<rparr>]"
  by (simp add: round_env_def rand_retry_def Let_def cx_defs rnd_0 rnd_numeral rnd_neg_numeral)

lemma round_env_retry_4:
  "round_env rand_retry [''a''] 4 = [''a'' \<mapsto> \<lparr>re = Fin (- 5), im = Fin 0\<rparr>]"
  by (simp add: round_env_def rand_retry_def Let_def cx_defs rnd_0 rnd_numeral rnd_neg_numeral)

lemma trial_a_div_a_zero:
  "trial M a_div_a a_div_a tol [''a'' \<mapsto> \<lparr>re = Fin 0, im = Fin 0\<rparr>] = Some (Inl DivisionByZero)"
  by (simp add: trial_def a_div_a_def Complex_div_zero)

lemma a_div_a_minus_5:
  "Complex_div \<lparr>re = Fin (- 5), im = Fin 0\<rparr> \<lparr>re = Fin (- 5), im = Fin 0\<rparr>
     = Inr \<lparr>re = Fin 1, im = Fin 0\<rparr>"
  apply (simp add: Complex_div_def Complex_denom_def Let_def rnd_numeral rnd_0 js_eq_Fin_0)
  apply (simp add: cx_defs rnd_numeral rnd_0 rnd_1)
  done

lemma trial_a_div_a_minus_5:
  "trial M a_div_a a_div_a lit_1e_7 [''a'' \<mapsto> \<lparr>re = Fin (- 5), im = Fin 0\<rparr>] = Some (Inr True)"
  by (simp add: trial_def a_div_a_def a_div_a_minus_5 Complex_eq_def js_sub_def rnd_0 lit_1e_7_pos)

text \<open>
  Claim C3, as stated, fails. With the default budget of six rounds, an error in the first
  round is thrown to the caller: the handler decrements \<open>t\<close> from \<open>0\<close> to \<open>-1\<close> and
  rethrows. With a budget of zero no round runs, nothing is evaluated and the result is
  \<open>true\<close>: no error reaches the caller.
\<close>

theorem first_round_error_propagates:
  "expressionsEqual no_Math rand_half one_div_zero one_div_zero (Fin 6) lit_1e_7
     = Some (Inl DivisionByZero)
   \<and> expressionsEqual no_Math rand_half one_div_zero one_div_zero (Fin 0) lit_1e_7
     = Some (Inr True)"
proof -
  have "trial_loop no_Math one_div_zero one_div_zero [] (Fin 6) lit_1e_7 rand_half (Fin 0) 0
          = Some (Inl DivisionByZero)"
    by (rule trial_loop_first_error) (simp_all add: trial_one_div_zero)
  moreover have "trial_loop no_Math one_div_zero one_div_zero [] (Fin 0) lit_1e_7 rand_half (Fin 0) 0
          = Some (Inr True)"
    by (rule trial_loop_no_round) simp
  ultimately show ?thesis
    by (simp add: expressionsEqual_loop all_vars_one_div_zero)
qed

text \<open>
  Claim C3, amended. For every pair of trees: with a positive budget, an error raised in
  the first round (\<open>t = 0\<close>) is thrown to the caller; with a budget that is not positive no
  round runs and the result is \<open>true\<close>; an error raised in a later round (\<open>1 \<le> t < tries\<close>)
  is not propagated: the round is run again with the next random numbers and the same
  \<open>t\<close>, and this any number \<open>n\<close> of times in a row, so the retries have no bound.
\<close>

theorem error_recovery_after_first_round:
  "(js_lt (Fin 0) tries
      \<and> trial M ast1 ast2 tol (round_env rand (all_vars ast1 ast2) 0) = Some (Inl e)
      \<longrightarrow> expressionsEqual M rand ast1 ast2 tries tol = Some (Inl e))
   \<and> (\<not> js_lt (Fin 0) tries \<longrightarrow> expressionsEqual M rand ast1 ast2 tries tol = Some (Inr True))
   \<and> (1 \<le> t \<and> t \<le> 2 ^ 53 \<and> js_lt (Fin (of_nat t)) tries
        \<and> (\<forall>j<n. \<exists>e'. trial M ast1 ast2 tol (round_env rand vars (k + j * (2 * length vars)))
                         = Some (Inl e'))
      \<longrightarrow> trial_loop M ast1 ast2 vars tries tol rand (Fin (of_nat t)) k
            = trial_loop M ast1 ast2 vars tries tol rand (Fin (of_nat t))
                (k + n * (2 * length vars)))
   \<and> expressionsEqual M rand ast1 ast2 tries tol
       = trial_loop M ast1 ast2 (all_vars ast1 ast2) tries tol rand (Fin 0) 0"
  using trial_loop_first_error [of tries M ast1 ast2 tol rand "all_vars ast1 ast2" e]
    trial_loop_no_round [of tries M ast1 ast2 "all_vars ast1 ast2" tol rand 0]
    trial_loop_retries [of t tries n M ast1 ast2 tol rand vars k]
  by (simp add: expressionsEqual_loop)

lemma round_env_half: "round_env rand_half [''a''] 0 = [''a'' \<mapsto> \<lparr>re = Fin 0, im = Fin 0\<rparr>]"
  by (simp add: round_env_def rand_half_def Let_def cx_defs rnd_0 rnd_numeral rnd_neg_numeral)

theorem error_recovery_after_first_round_witness:
  "js_lt (Fin 0) (Fin 2) \<and> js_lt (Fin (of_nat 1)) (Fin 2) \<and> \<not> js_lt (Fin 0) (Fin 0)
   \<and> trial no_Math a_div_a a_div_a lit_1e_7 (round_env rand_half (all_vars a_div_a a_div_a) 0)
       = Some (Inl DivisionByZero)
   \<and> expressionsEqual no_Math rand_half a_div_a a_div_a (Fin 2) lit_1e_7 = Some (Inl DivisionByZero)
   \<and> expressionsEqual no_Math rand_retry a_div_a a_div_a (Fin 0) lit_1e_7 = Some (Inr True)
   \<and> trial no_Math a_div_a a_div_a lit_1e_7 (round_env rand_retry [''a''] 2)
       = Some (Inl DivisionByZero)
   \<and> trial_loop no_Math a_div_a a_div_a [''a''] (Fin 2) lit_1e_7 rand_retry (Fin (of_nat 1)) 2
       = trial_loop no_Math a_div_a a_div_a [''a''] (Fin 2) lit_1e_7 rand_retry (Fin (of_nat 1)) 4
   \<and> expressionsEqual no_Math rand_retry a_div_a a_div_a (Fin 2) lit_1e_7 = Some (Inr True)"
proof -
  note T = error_recovery_after_first_round
  have h0: "trial no_Math a_div_a a_div_a lit_1e_7 (round_env rand_half (all_vars a_div_a a_div_a) 0)
       = Some (Inl DivisionByZero)"
    by (simp add: all_vars_a_div_a round_env_half trial_a_div_a_zero)
  have a: "expressionsEqual no_Math rand_half a_div_a a_div_a (Fin 2) lit_1e_7 = Some (Inl DivisionByZero)"
    using h0 T [where tries = "Fin 2" and M = no_Math and ?ast1.0 = a_div_a and ?ast2.0 = a_div_a
        and tol = lit_1e_7 and rand = rand_half and e = DivisionByZero]
    by simp
  have b: "expressionsEqual no_Math rand_retry a_div_a a_div_a (Fin 0) lit_1e_7 = Some (Inr True)"
    using T [where tries = "Fin 0" and M = no_Math and ?ast1.0 = a_div_a and ?ast2.0 = a_div_a
        and tol = lit_1e_7 and rand = rand_retry]
    by simp
  have h2: "trial no_Math a_div_a a_div_a lit_1e_7 (round_env rand_retry [''a''] 2)
       = Some (Inl DivisionByZero)"
    by (simp add: round_env_retry_2 trial_a_div_a_zero)
  then have "\<forall>j<1. \<exists>e'. trial no_Math a_div_a a_div_a lit_1e_7
                 (round_env rand_retry [''a''] (2 + j * (2 * length [''a'']))) = Some (Inl e')"
    by simp
  then have c: "trial_loop no_Math a_div_a a_div_a [''a''] (Fin 2) lit_1e_7 rand_retry (Fin (of_nat 1)) 2
       = trial_loop no_Math a_div_a a_div_a [''a''] (Fin 2) lit_1e_7 rand_retry (Fin (of_nat 1)) 4"
    using T [where tries = "Fin 2" and M = no_Math and ?ast1.0 = a_div_a and ?ast2.0 = a_div_a
        and tol = lit_1e_7 and rand = rand_retry and t = 1 and n = 1 and vars = "[''a'']" and k = 2]
    by simp
  have "expressionsEqual no_Math rand_retry a_div_a a_div_a (Fin 2) lit_1e_7
          = trial_loop no_Math a_div_a a_div_a [''a''] (Fin 2) lit_1e_7 rand_retry (Fin 0) 0"
    by (simp add: expressionsEqual_loop all_vars_a_div_a)
  also have "\<dots> = trial_loop no_Math a_div_a a_div_a [''a''] (Fin 2) lit_1e_7 rand_retry (Fin 1) 2"
    by (rule trial_loop_next) (simp_all add: round_env_retry_0 trial_a_div_a_minus_5 rnd_1)
  also have "\<dots> = trial_loop no_Math a_div_a a_div_a [''a''] (Fin 2) lit_1e_7 rand_retry (Fin 1) 4"
    using c by simp
  also have "\<dots> = trial_loop no_Math a_div_a a_div_a [''a''] (Fin 2) lit_1e_7 rand_retry (Fin 2) 6"
    by (rule trial_loop_next) (simp_all add: round_env_retry_4 trial_a_div_a_minus_5 rnd_numeral)
  also have "\<dots> = Some (Inr True)"
    by (rule trial_loop_exit) simp
  finally have d: "expressionsEqual no_Math rand_retry a_div_a a_div_a (Fin 2) lit_1e_7 = Some (Inr True)" .
  from h0 a b h2 c d show ?thesis by simp
qed

section \<open>Characters the tokenizer refuses\<close>

lemma tokenize_loop_chars:
  "\<forall>t\<in>set (tokenize_loop s). list_all is_token_char t"
proof (induction s rule: tokenize_loop.induct)
  case (1 s)
  show ?case
  proof (cases "TOKEN_REGEX_exec s")
    case None
    then show ?thesis by (subst tokenize_loop.simps) simp
  next
    case (Some p)
    obtain t s' where p: "p = (t, s')" by (cases p)
    from TOKEN_REGEX_exec_sound [OF Some [unfolded p]] TOKEN_group_lang
    have "list_all is_token_char t" by blast
    moreover from "1.IH" [OF Some [unfolded p] refl]
    have "\<forall>u\<in>set (tokenize_loop s'). list_all is_token_char u" .
    ultimately show ?thesis
      by (subst tokenize_loop.simps) (simp add: Some p)
  qed
qed

text \<open>
  Claim C2, as stated, fails in both directions. The string \<open>.\<close> holds only a character of
  the claim's list and the tokenizer refuses it: a point needs a digit after it. The string
  \<open>_\<close> holds a character outside the list and is accepted: it is an identifier.
\<close>

theorem tokenize_dot_and_underscore:
  "tokenize ''.'' = Inl LexicalError \<and> tokenize ''_'' = Inr [''_'']"
  by code_simp

text \<open>
  Claim C2, amended. \<open>tokenize\<close> raises the lexical error whenever the input holds a
  character that is not a digit, a letter, an underscore, one of \<open>. + - * / ( ) , ^\<close> or
  white space. (A string of these characters alone can still be refused, as \<open>.\<close> is.)
\<close>

theorem foreign_character_raises:
  assumes "\<exists>c\<in>set input. \<not> (is_digit c \<or> char_range CHR ''A'' CHR ''Z'' c
             \<or> char_range CHR ''a'' CHR ''z'' c \<or> c = CHR ''_''
             \<or> c \<in> set ''.+-*/(),^'' \<or> is_space c)"
  shows "tokenize input = Inl LexicalError"
proof -
  from assms obtain c where c: "c \<in> set input" "\<not> is_token_char c" "\<not> is_space c"
    by (auto simp: is_token_char_def is_word_def is_ident_start_def)
  from c(1,3) have "c \<in> set (filter (\<lambda>c. \<not> is_space c) input)" by simp
  moreover have "c \<notin> set (concat (tokenize_loop input))"
    using tokenize_loop_chars [of input] c(2) by (auto simp: list_all_iff)
  ultimately have "concat (tokenize_loop input) \<noteq> filter (\<lambda>c. \<not> is_space c) input"
    by metis
  then show ?thesis by (simp add: tokenize_def)
qed

theorem foreign_character_raises_witness:
  "CHR ''$'' \<in> set ''2 $ 3''
   \<and> \<not> (is_digit CHR ''$'' \<or> char_range CHR ''A'' CHR ''Z'' CHR ''$''
             \<or> char_range CHR ''a'' CHR ''z'' CHR ''$'' \<or> CHR ''$'' = CHR ''_''
             \<or> CHR ''$'' \<in> set ''.+-*/(),^'' \<or> is_space CHR ''$'')
   \<and> tokenize ''2 $ 3'' = Inl LexicalError"
proof -
  have 1: "CHR ''$'' \<in> set ''2 $ 3''" by simp
  have 2: "\<not> (is_digit CHR ''$'' \<or> char_range CHR ''A'' CHR ''Z'' CHR ''$''
             \<or> char_range CHR ''a'' CHR ''z'' CHR ''$'' \<or> CHR ''$'' = CHR ''_''
             \<or> CHR ''$'' \<in> set ''.+-*/(),^'' \<or> is_space CHR ''$'')"
    by (simp add: cls_defs)
  from 1 2 have "\<exists>c\<in>set ''2 $ 3''. \<not> (is_digit c \<or> char_range CHR ''A'' CHR ''Z'' c
             \<or> char_range CHR ''a'' CHR ''z'' c \<or> c = CHR ''_''
             \<or> c \<in> set ''.+-*/(),^'' \<or> is_space c)"
    by (rule bexI [rotated])
  from foreign_character_raises [OF this] 1 2 show ?thesis by blast
qed

section \<open>Round trip through the printer\<close>





































end
